theory Spec2Isabelle
  imports Main "HOL-Library.Log_Nat"
begin

text \<open>
  The request handlers of the bookstore server (\<^verbatim>\<open>server.js\<close>, an Express application
  over a relational store): registration, the catalog searches, the cart, checkout and the
  reading of an order. A handler is a function of the session, the request's parameters and
  the store to a reply and the store it leaves. The handlers apply JavaScript's conversions
  to what a request carries (\<^verbatim>\<open>!qty\<close>, \<^verbatim>\<open>qty < 1\<close>, \<^verbatim>\<open>parseInt\<close>), so the
  first sections model JavaScript's numbers and strings as far as the handlers use them.
\<close>

section \<open>JavaScript numbers\<close>

text \<open>
  A JavaScript number is an IEEE 754 double. A finite double is modelled by the rational it
  denotes, so every double is a value \<open>Fin r\<close>; the two zeros are not told apart.
  Arithmetic is the exact operation followed by \<open>fl\<close>, the rounding to the nearest double
  with ties to the even significand, as IEEE 754 defines the basic operations.
\<close>

datatype jsnum = NaN | PosInf | NegInf | Fin rat

text \<open>\<open>ilog b a\<close> is the exponent \<open>k\<close> with \<open>b ^ k \<le> a < b ^ (k + 1)\<close>, for \<open>a > 0\<close>.\<close>

definition ilog :: "nat \<Rightarrow> rat \<Rightarrow> int" where
  "ilog b a =
     (case quotient_of a of
        (p, q) \<Rightarrow>
          let k = int (floorlog b (nat p)) - int (floorlog b (nat q))
          in if of_nat b powi k \<le> a then k else k - 1)"

definition round_even :: "rat \<Rightarrow> int" where
  "round_even x =
     (let f = \<lfloor>x\<rfloor>; d = x - of_int f
      in if d < 1 / 2 then f else if 1 / 2 < d then f + 1 else if even f then f else f + 1)"

text \<open>
  The doubles around \<open>a > 0\<close> are the multiples of \<open>2 ^ binexp a\<close>: 53 significant
  bits, and the exponent \<open>- 1074\<close> for the subnormal numbers. A significand that rounds
  up to \<open>2 ^ 53\<close> at the largest exponent 971 overflows to infinity.
\<close>

definition binexp :: "rat \<Rightarrow> int" where
  "binexp a = max (ilog 2 a - 52) (- 1074)"

definition fl :: "rat \<Rightarrow> jsnum" where
  "fl r =
     (if r = 0 then Fin 0
      else
        let a = \<bar>r\<bar>; e = binexp a; m = round_even (a / 2 powi e)
        in if 971 < e \<or> e = 971 \<and> 2 ^ 53 \<le> m then (if r < 0 then NegInf else PosInf)
           else Fin (if r < 0 then - (of_int m * 2 powi e) else of_int m * 2 powi e))"

definition js_neg :: "jsnum \<Rightarrow> jsnum" where
  "js_neg x = (case x of NaN \<Rightarrow> NaN | PosInf \<Rightarrow> NegInf | NegInf \<Rightarrow> PosInf | Fin a \<Rightarrow> Fin (- a))"

fun js_add :: "jsnum \<Rightarrow> jsnum \<Rightarrow> jsnum" where
  "js_add (Fin a) (Fin b) = fl (a + b)"
| "js_add NaN y = NaN"
| "js_add x NaN = NaN"
| "js_add PosInf NegInf = NaN"
| "js_add NegInf PosInf = NaN"
| "js_add PosInf y = PosInf"
| "js_add NegInf y = NegInf"
| "js_add x PosInf = PosInf"
| "js_add x NegInf = NegInf"

definition js_sub :: "jsnum \<Rightarrow> jsnum \<Rightarrow> jsnum" where
  "js_sub x y = js_add x (js_neg y)"

text \<open>The sign of a number that is not NaN: \<open>True\<close> for negative.\<close>

definition negative :: "jsnum \<Rightarrow> bool" where
  "negative x = (case x of NegInf \<Rightarrow> True | Fin a \<Rightarrow> a < 0 | _ \<Rightarrow> False)"

fun js_mul :: "jsnum \<Rightarrow> jsnum \<Rightarrow> jsnum" where
  "js_mul (Fin a) (Fin b) = fl (a * b)"
| "js_mul NaN y = NaN"
| "js_mul x NaN = NaN"
| "js_mul x y =
     (if x = Fin 0 \<or> y = Fin 0 then NaN
      else if negative x = negative y then PosInf else NegInf)"

fun js_div :: "jsnum \<Rightarrow> jsnum \<Rightarrow> jsnum" where
  "js_div (Fin a) (Fin b) =
     (if b = 0 then (if a = 0 then NaN else if a < 0 then NegInf else PosInf)
      else fl (a / b))"
| "js_div NaN y = NaN"
| "js_div x NaN = NaN"
| "js_div (Fin a) y = Fin 0"
| "js_div x (Fin b) = (if negative x = (b < 0) then PosInf else NegInf)"
| "js_div x y = NaN"

text \<open>\<^verbatim>\<open>Math.ceil\<close>.\<close>

definition js_ceil :: "jsnum \<Rightarrow> jsnum" where
  "js_ceil x = (case x of Fin a \<Rightarrow> Fin (of_int \<lceil>a\<rceil>) | _ \<Rightarrow> x)"

text \<open>\<^verbatim>\<open>x < y\<close> on numbers: false when either is NaN.\<close>

fun js_less :: "jsnum \<Rightarrow> jsnum \<Rightarrow> bool" where
  "js_less (Fin a) (Fin b) = (a < b)"
| "js_less NaN y = False"
| "js_less x NaN = False"
| "js_less x NegInf = False"
| "js_less PosInf y = False"
| "js_less x y = True"

text \<open>\<^verbatim>\<open>!x\<close> on a number, and \<^verbatim>\<open>x || y\<close> with a number on the left.\<close>

definition falsy_num :: "jsnum \<Rightarrow> bool" where
  "falsy_num x = (x = NaN \<or> x = Fin 0)"

definition js_or :: "jsnum \<Rightarrow> jsnum \<Rightarrow> jsnum" where
  "js_or x y = (if falsy_num x then y else x)"

subsection \<open>Number to string, as far as \<^verbatim>\<open>parseInt\<close> reads it\<close>

text \<open>
  \<^verbatim>\<open>Number::toString\<close> prints the shortest decimal \<open>s * 10 ^ (n - k)\<close>, \<open>s\<close> of \<open>k\<close>
  digits, that reads back as the same double. \<open>reads_as x v\<close> tells whether the real
  \<open>v\<close> rounds to the double \<open>x > 0\<close>: it lies within half a unit in the last place of
  \<open>x\<close> (a quarter below a power of two), the bounds included when the significand is
  even.
\<close>

definition reads_as :: "rat \<Rightarrow> rat \<Rightarrow> bool" where
  "reads_as x v =
     (let e = binexp x; u = 2 powi e; m = \<lfloor>x / u\<rfloor>;
          hi = x + u / 2;
          lo = x - (if m = 2 ^ 52 \<and> e \<noteq> - 1074 then u / 4 else u / 2)
      in if even m then lo \<le> v \<and> v \<le> hi else lo < v \<and> v < hi)"

text \<open>
  The candidates with \<open>k\<close> digits are the two multiples of \<open>10 ^ (d - k + 1)\<close> around
  \<open>x\<close>, \<open>d = ilog 10 x\<close>; of two that both read back as \<open>x\<close> the closer one is taken,
  the even one when they are equally close. The result is \<open>(s, n)\<close>; \<open>s\<close> may end in
  zeros.
\<close>

definition shortest_with :: "rat \<Rightarrow> nat \<Rightarrow> (int \<times> int) option" where
  "shortest_with x k =
     (let j = ilog 10 x - int k + 1; p = 10 powi j; s = \<lfloor>x / p\<rfloor>;
          below = (0 < s \<and> reads_as x (of_int s * p));
          above = reads_as x (of_int (s + 1) * p);
          dl = x - of_int s * p; dh = of_int (s + 1) * p - x;
          c = (if below \<and> above then (if dl < dh \<or> dl = dh \<and> even s then s else s + 1)
               else if below then s else s + 1)
      in if below \<or> above then Some (c, j + int (floorlog 10 (nat c))) else None)"

fun shortest_from :: "rat \<Rightarrow> nat \<Rightarrow> nat \<Rightarrow> (int \<times> int) option" where
  "shortest_from x k 0 = None"
| "shortest_from x k (Suc fuel) =
     (case shortest_with x k of
        Some r \<Rightarrow> Some r
      | None \<Rightarrow> shortest_from x (Suc k) fuel)"

text \<open>Seventeen digits always suffice for a double.\<close>

definition shortest :: "rat \<Rightarrow> (int \<times> int) option" where
  "shortest x = shortest_from x 1 17"

definition first_digit :: "int \<Rightarrow> int" where
  "first_digit s = s div 10 ^ (floorlog 10 (nat s) - 1)"

text \<open>
  \<^verbatim>\<open>parseInt(x)\<close> for a number \<open>x\<close> is \<^verbatim>\<open>parseInt(String(x))\<close>. \<^verbatim>\<open>String(x)\<close> is in
  plain notation when \<open>- 6 < n \<le> 21\<close> and in exponent notation \<^verbatim>\<open>d.ddde+N\<close> otherwise,
  of which \<^verbatim>\<open>parseInt\<close> reads the first digit only. For \<open>1 \<le> \<bar>x\<bar> < 10 ^ 21\<close> the
  notation is plain and the digits before the point read back as the integer part of \<open>x\<close>;
  below 1 the plain notation starts with \<^verbatim>\<open>0.\<close>.
\<close>

definition parseInt_num :: "jsnum \<Rightarrow> jsnum" where
  "parseInt_num x =
     (case x of
        Fin r \<Rightarrow>
          if r = 0 then Fin 0
          else
            let a = \<bar>r\<bar>;
                i = (if 1 \<le> a \<and> a < 10 ^ 21 then \<lfloor>a\<rfloor>
                     else case shortest a of
                            None \<Rightarrow> 0
                          | Some (s, n) \<Rightarrow> if - 6 < n \<and> n \<le> 21 then 0 else first_digit s)
            in Fin (of_int (if r < 0 then - i else i))
      | _ \<Rightarrow> NaN)"

section \<open>JavaScript strings\<close>

text \<open>
  A string is a list of code units; the characters modelled are those below 256. The white
  space of \<^verbatim>\<open>\s\<close>, of \<^verbatim>\<open>parseInt\<close> and of the conversion to a number is, in
  this range, tab, line feed, vertical tab, form feed, carriage return, space and the
  no-break space.
\<close>

definition js_space :: "char \<Rightarrow> bool" where
  "js_space c = (of_char c \<in> {9, 10, 11, 12, 13, 32, 160 :: nat})"

definition digit_val :: "char \<Rightarrow> nat option" where
  "digit_val c =
     (let n = of_char c :: nat
      in if 48 \<le> n \<and> n \<le> 57 then Some (n - 48)
         else if 97 \<le> n \<and> n \<le> 102 then Some (n - 87)
         else if 65 \<le> n \<and> n \<le> 70 then Some (n - 55)
         else None)"

definition is_digit :: "nat \<Rightarrow> char \<Rightarrow> bool" where
  "is_digit radix c = (case digit_val c of Some v \<Rightarrow> v < radix | None \<Rightarrow> False)"

definition digits_value :: "nat \<Rightarrow> string \<Rightarrow> nat" where
  "digits_value radix ds =
     foldl (\<lambda>acc c. acc * radix + (case digit_val c of Some v \<Rightarrow> v | None \<Rightarrow> 0)) 0 ds"

text \<open>
  \<^verbatim>\<open>parseInt(string)\<close> with no radix: leading white space, a sign, the prefix
  \<^verbatim>\<open>0x\<close> for radix 16, then the longest run of digits; \<^verbatim>\<open>NaN\<close> when there is no
  digit. The value of the digits is taken exactly and then rounded.
\<close>

definition parseInt_str :: "string \<Rightarrow> jsnum" where
  "parseInt_str str =
     (let s1 = dropWhile js_space str;
          minus = (s1 \<noteq> [] \<and> hd s1 = CHR ''-'');
          s2 = (if s1 \<noteq> [] \<and> (hd s1 = CHR ''-'' \<or> hd s1 = CHR ''+'') then tl s1 else s1);
          hex = (take 2 s2 = ''0x'' \<or> take 2 s2 = ''0X'');
          radix = (if hex then 16 else 10);
          s3 = (if hex then drop 2 s2 else s2);
          z = takeWhile (is_digit radix) s3
      in if z = [] then NaN
         else fl (if minus then - of_nat (digits_value radix z) else of_nat (digits_value radix z)))"

text \<open>
  The conversion of a string to a number (\<^verbatim>\<open>StringToNumber\<close>): white space is
  trimmed at both ends; the empty string is 0; the rest is a decimal literal
  (\<^verbatim>\<open>Infinity\<close>, or digits with an optional fraction and exponent, signed), or an
  unsigned literal with prefix \<^verbatim>\<open>0x\<close>, \<^verbatim>\<open>0o\<close> or \<^verbatim>\<open>0b\<close>; anything
  else is \<^verbatim>\<open>NaN\<close>.
\<close>

definition trim :: "string \<Rightarrow> string" where
  "trim s = rev (dropWhile js_space (rev (dropWhile js_space s)))"

definition all_digits :: "nat \<Rightarrow> string \<Rightarrow> bool" where
  "all_digits radix ds = (ds \<noteq> [] \<and> list_all (is_digit radix) ds)"

definition exponent_part :: "string \<Rightarrow> int option" where
  "exponent_part r =
     (case r of
        [] \<Rightarrow> Some 0
      | c # r1 \<Rightarrow>
          if c = CHR ''e'' \<or> c = CHR ''E''
          then (case r1 of
                  [] \<Rightarrow> None
                | g # r2 \<Rightarrow>
                    if g = CHR ''-''
                    then (if all_digits 10 r2 then Some (- int (digits_value 10 r2)) else None)
                    else if g = CHR ''+''
                    then (if all_digits 10 r2 then Some (int (digits_value 10 r2)) else None)
                    else (if all_digits 10 r1 then Some (int (digits_value 10 r1)) else None))
          else None)"

definition decimal_literal :: "string \<Rightarrow> rat option" where
  "decimal_literal t =
     (let ip = takeWhile (is_digit 10) t;
          r1 = dropWhile (is_digit 10) t;
          dot = (r1 \<noteq> [] \<and> hd r1 = CHR ''.'');
          fp = (if dot then takeWhile (is_digit 10) (tl r1) else []);
          r2 = (if dot then dropWhile (is_digit 10) (tl r1) else r1)
      in if ip = [] \<and> fp = [] then None
         else (case exponent_part r2 of
                 None \<Rightarrow> None
               | Some ex \<Rightarrow>
                   Some ((of_nat (digits_value 10 ip)
                          + of_nat (digits_value 10 fp) / 10 ^ length fp) * 10 powi ex)))"

definition radix_literal :: "nat \<Rightarrow> string \<Rightarrow> jsnum" where
  "radix_literal radix ds =
     (if all_digits radix ds then fl (of_nat (digits_value radix ds)) else NaN)"

definition string_to_number :: "string \<Rightarrow> jsnum" where
  "string_to_number str =
     (let t = trim str; p = take 2 t
      in if t = [] then Fin 0
         else if p = ''0x'' \<or> p = ''0X'' then radix_literal 16 (drop 2 t)
         else if p = ''0o'' \<or> p = ''0O'' then radix_literal 8 (drop 2 t)
         else if p = ''0b'' \<or> p = ''0B'' then radix_literal 2 (drop 2 t)
         else
           let minus = (hd t = CHR ''-'');
               u = (if hd t = CHR ''-'' \<or> hd t = CHR ''+'' then tl t else t)
           in if u = ''Infinity'' then (if minus then NegInf else PosInf)
              else (case decimal_literal u of
                      None \<Rightarrow> NaN
                    | Some v \<Rightarrow> fl (if minus then - v else v)))"

section \<open>JavaScript values in a request\<close>

text \<open>
  The values a field of a JSON or form body can have, objects and arrays left out.
\<close>

datatype jsval = JUndefined | JNull | JBool bool | JNum jsnum | JStr string

text \<open>\<^verbatim>\<open>!v\<close>.\<close>

definition js_not :: "jsval \<Rightarrow> bool" where
  "js_not v =
     (case v of
        JUndefined \<Rightarrow> True
      | JNull \<Rightarrow> True
      | JBool b \<Rightarrow> \<not> b
      | JNum x \<Rightarrow> falsy_num x
      | JStr s \<Rightarrow> s = [])"

definition to_number :: "jsval \<Rightarrow> jsnum" where
  "to_number v =
     (case v of
        JUndefined \<Rightarrow> NaN
      | JNull \<Rightarrow> Fin 0
      | JBool b \<Rightarrow> (if b then Fin 1 else Fin 0)
      | JNum x \<Rightarrow> x
      | JStr s \<Rightarrow> string_to_number s)"

text \<open>
  \<^verbatim>\<open>parseInt(v)\<close> reads \<^verbatim>\<open>String(v)\<close>: \<^verbatim>\<open>undefined\<close>, \<^verbatim>\<open>null\<close>,
  \<^verbatim>\<open>true\<close> and \<^verbatim>\<open>false\<close> have no digit.
\<close>

definition parseInt :: "jsval \<Rightarrow> jsnum" where
  "parseInt v =
     (case v of
        JNum x \<Rightarrow> parseInt_num x
      | JStr s \<Rightarrow> parseInt_str s
      | _ \<Rightarrow> NaN)"

section \<open>The store\<close>

text \<open>
  \<^verbatim>\<open>server.js\<close> keeps all its data in a relational store reached through
  \<^verbatim>\<open>db.query\<close>. The tables are modelled as lists of rows, in the order a table scan
  delivers them; a column keeps the name it has in the SQL text, prefixed by a letter for
  its table (several tables share \<^verbatim>\<open>userid\<close>, \<^verbatim>\<open>isbn\<close> and \<^verbatim>\<open>qty\<close>).
  The type \<open>'n\<close> is the type of prices and amounts. How a price reaches the handler (as a
  number or as a decimal string) is decided by the schema, so the multiplication of a
  quantity and a price is a parameter of every operation that computes with it.
\<close>

type_synonym isbn = string

record member =
  m_userid :: nat
  m_fname :: string
  m_lname :: string
  m_address :: string
  m_city :: string
  m_zip :: int
  m_phone :: string
  m_email :: string
  m_password :: string

record 'n book =
  b_isbn :: isbn
  b_title :: string
  b_author :: string
  b_subject :: string
  b_price :: 'n

record cart_line =
  c_userid :: nat
  c_isbn :: isbn
  c_qty :: int

record order =
  o_ono :: nat
  o_userid :: nat
  o_created :: string
  o_shipAddress :: string
  o_shipCity :: string
  o_shipZip :: int

record 'n odetail =
  d_ono :: nat
  d_isbn :: isbn
  d_qty :: int
  d_amount :: 'n

text \<open>
  \<open>next_ono\<close> and \<open>next_userid\<close> are the counters behind
  \<^verbatim>\<open>orderResult.insertId\<close> and \<^verbatim>\<open>user.userid\<close>: the key the store gives the next
  inserted row.
\<close>

record 'n db =
  members :: "member list"
  books :: "'n book list"
  cart :: "cart_line list"
  orders :: "order list"
  odetails :: "'n odetail list"
  next_ono :: nat
  next_userid :: nat

section \<open>Requests, replies and store failures\<close>

text \<open>
  Every handler is \<^verbatim>\<open>try { ... } catch (error) { res.status(500)... }\<close>, and every
  \<^verbatim>\<open>await db.query(...)\<close> in it may throw. The store calls of one request are
  numbered from 0 in the order the handler issues them, and \<open>fails k\<close> tells whether
  call \<open>k\<close> throws. A call that throws changes nothing in the store; the handler stops
  there and answers 500. An outcome is the reply (status and body), the store after the
  request, and the number of store calls the handler issued. The session is
  \<^verbatim>\<open>req.session.userId\<close>, a user id or nothing.
\<close>

record 'n cart_item =
  i_isbn :: isbn
  i_qty :: int
  i_price :: 'n

record 'n cart_row =
  r_isbn :: isbn
  r_qty :: int
  r_title :: string
  r_price :: 'n
  r_total :: 'n

text \<open>
  The bodies of the replies: \<^verbatim>\<open>{error}\<close>, \<^verbatim>\<open>{success: true}\<close>,
  \<^verbatim>\<open>{success: true, message}\<close>, \<^verbatim>\<open>{success: true, orderId}\<close>, the rows of the cart,
  \<^verbatim>\<open>{order, details}\<close> and \<^verbatim>\<open>{books, total, page, totalPages}\<close>.
\<close>

datatype 'n body =
    Error string
  | Success
  | SuccessMessage string
  | SuccessOrder nat
  | CartRows "'n cart_row list"
  | OrderInfo "order \<times> string \<times> string" "('n odetail \<times> string) list"
  | BookPage "'n book list" nat jsnum jsnum

record 'n outcome =
  reply :: "nat \<times> 'n body"
  store :: "'n db"
  calls :: nat

text \<open>\<^verbatim>\<open>if (!req.session.userId)\<close>: an absent user id and the id 0 are both falsy.\<close>

definition not_logged_in :: "nat option \<Rightarrow> bool" where
  "not_logged_in s = (case s of None \<Rightarrow> True | Some u \<Rightarrow> u = 0)"

definition no_failure :: "nat \<Rightarrow> bool" where
  "no_failure k = False"

definition failure_at :: "nat \<Rightarrow> nat \<Rightarrow> bool" where
  "failure_at n k = (k = n)"

section \<open>Checkout\<close>

text \<open>
  \<^verbatim>\<open>SELECT c.isbn, c.qty, b.price FROM cart c JOIN books b ON c.isbn = b.isbn
  WHERE c.userid = ?\<close>
\<close>

definition cart_items :: "'n db \<Rightarrow> nat \<Rightarrow> 'n cart_item list" where
  "cart_items d userId =
     concat (map (\<lambda>c. map (\<lambda>b. \<lparr>i_isbn = c_isbn c, i_qty = c_qty c, i_price = b_price b\<rparr>)
                          (filter (\<lambda>b. c_isbn c = b_isbn b) (books d)))
                 (filter (\<lambda>c. c_userid c = userId) (cart d)))"

text \<open>The row that \<^verbatim>\<open>INSERT INTO odetails (ono, isbn, qty, amount)\<close> writes for one item.\<close>

definition detail_row :: "(int \<Rightarrow> 'n \<Rightarrow> 'n) \<Rightarrow> nat \<Rightarrow> 'n cart_item \<Rightarrow> 'n odetail" where
  "detail_row mul orderId item =
     (let amount = mul (i_qty item) (i_price item)
      in \<lparr>d_ono = orderId, d_isbn = i_isbn item, d_qty = i_qty item, d_amount = amount\<rparr>)"

text \<open>
  The loop \<^verbatim>\<open>for (const item of cartItems)\<close>, one store call for each item, starting
  with call number \<open>k\<close>. The result tells whether the loop ran to its end, the store it
  left and the number of the next store call.
\<close>

fun insert_details ::
  "(nat \<Rightarrow> bool) \<Rightarrow> (int \<Rightarrow> 'n \<Rightarrow> 'n) \<Rightarrow> nat \<Rightarrow> nat \<Rightarrow> 'n cart_item list \<Rightarrow> 'n db
     \<Rightarrow> bool \<times> 'n db \<times> nat" where
  "insert_details fails mul k orderId [] d = (True, d, k)"
| "insert_details fails mul k orderId (item # rest) d =
     (if fails k then (False, d, Suc k)
      else insert_details fails mul (Suc k) orderId rest
             (d\<lparr>odetails := odetails d @ [detail_row mul orderId item]\<rparr>))"

definition order_row :: "nat \<Rightarrow> nat \<Rightarrow> string \<Rightarrow> member \<Rightarrow> order" where
  "order_row orderId userId today user =
     \<lparr>o_ono = orderId, o_userid = userId, o_created = today,
      o_shipAddress = m_address user, o_shipCity = m_city user, o_shipZip = m_zip user\<rparr>"

definition checkout_failed :: "'n db \<Rightarrow> nat \<Rightarrow> 'n outcome" where
  "checkout_failed d n = \<lparr>reply = (500, Error ''Checkout failed''), store = d, calls = n\<rparr>"

text \<open>
  \<^verbatim>\<open>POST /api/checkout\<close>. \<open>today\<close> is the store's \<^verbatim>\<open>CURDATE()\<close>. When no member row
  has the session's user id, \<^verbatim>\<open>user\<close> is \<^verbatim>\<open>undefined\<close> and
  \<^verbatim>\<open>user.address\<close> throws while the arguments of the order insert are built, after
  the test for an empty cart and before the insert is issued.
\<close>

definition checkout ::
  "(nat \<Rightarrow> bool) \<Rightarrow> (int \<Rightarrow> 'n \<Rightarrow> 'n) \<Rightarrow> string \<Rightarrow> nat option \<Rightarrow> 'n db \<Rightarrow> 'n outcome" where
  "checkout fails mul today sess d =
     (if not_logged_in sess
      then \<lparr>reply = (401, Error ''Not logged in''), store = d, calls = 0\<rparr>
      else
        let userId = the sess in
        if fails 0 then checkout_failed d 1
        else
          let users = filter (\<lambda>m. m_userid m = userId) (members d) in
          if fails 1 then checkout_failed d 2
          else
            let cartItems = cart_items d userId in
            if cartItems = []
            then \<lparr>reply = (400, Error ''Cart is empty''), store = d, calls = 2\<rparr>
            else
              (case users of
                 [] \<Rightarrow> checkout_failed d 2
               | user # _ \<Rightarrow>
                   if fails 2 then checkout_failed d 3
                   else
                     let orderId = next_ono d;
                         d1 = d\<lparr>orders := orders d @ [order_row orderId userId today user],
                                next_ono := Suc (next_ono d)\<rparr>
                     in (case insert_details fails mul 3 orderId cartItems d1 of
                           (finished, d2, k) \<Rightarrow>
                             if \<not> finished then checkout_failed d2 k
                             else if fails k then checkout_failed d2 (Suc k)
                             else \<lparr>reply = (200, SuccessOrder orderId),
                                   store = d2\<lparr>cart := filter (\<lambda>c. c_userid c \<noteq> userId) (cart d2)\<rparr>,
                                   calls = Suc k\<rparr>)))"

text \<open>
  The multiplication of the handler, \<^verbatim>\<open>item.qty * item.price\<close>, for a price that the
  store delivers as a number or, for a decimal column, as a string: JavaScript converts
  both operands to numbers and rounds their product to a double.
\<close>

definition js_times :: "int \<Rightarrow> jsval \<Rightarrow> jsval" where
  "js_times qty price = JNum (js_mul (fl (of_int qty)) (to_number price))"

section \<open>Reading the cart and an order\<close>

text \<open>
  \<^verbatim>\<open>GET /api/cart\<close>. The product \<^verbatim>\<open>(c.qty * b.price) as total\<close> is computed by the
  store, with the store's multiplication \<open>mul\<close>.
\<close>

definition cart_rows :: "(int \<Rightarrow> 'n \<Rightarrow> 'n) \<Rightarrow> 'n db \<Rightarrow> nat \<Rightarrow> 'n cart_row list" where
  "cart_rows mul d userId =
     concat (map (\<lambda>c. map (\<lambda>b. \<lparr>r_isbn = c_isbn c, r_qty = c_qty c, r_title = b_title b,
                                r_price = b_price b, r_total = mul (c_qty c) (b_price b)\<rparr>)
                          (filter (\<lambda>b. c_isbn c = b_isbn b) (books d)))
                 (filter (\<lambda>c. c_userid c = userId) (cart d)))"

definition getCart :: "(nat \<Rightarrow> bool) \<Rightarrow> (int \<Rightarrow> 'n \<Rightarrow> 'n) \<Rightarrow> nat option \<Rightarrow> 'n db \<Rightarrow> 'n outcome" where
  "getCart fails mul sess d =
     (if not_logged_in sess
      then \<lparr>reply = (401, Error ''Not logged in''), store = d, calls = 0\<rparr>
      else if fails 0
      then \<lparr>reply = (500, Error ''Failed to fetch cart''), store = d, calls = 1\<rparr>
      else \<lparr>reply = (200, CartRows (cart_rows mul d (the sess))), store = d, calls = 1\<rparr>)"

text \<open>
  \<^verbatim>\<open>GET /api/order/:orderId\<close>. \<open>orderId\<close> is the order number that the route
  parameter denotes in the store's comparison \<^verbatim>\<open>o.ono = ?\<close>.
\<close>

definition owned_orders :: "'n db \<Rightarrow> nat \<Rightarrow> nat \<Rightarrow> (order \<times> string \<times> string) list" where
  "owned_orders d orderId userId =
     concat (map (\<lambda>ord. map (\<lambda>m. (ord, m_fname m, m_lname m))
                            (filter (\<lambda>m. o_userid ord = m_userid m) (members d)))
                 (filter (\<lambda>ord. o_ono ord = orderId \<and> o_userid ord = userId) (orders d)))"

definition order_details :: "'n db \<Rightarrow> nat \<Rightarrow> ('n odetail \<times> string) list" where
  "order_details d orderId =
     concat (map (\<lambda>od. map (\<lambda>b. (od, b_title b))
                           (filter (\<lambda>b. d_isbn od = b_isbn b) (books d)))
                 (filter (\<lambda>od. d_ono od = orderId) (odetails d)))"

definition getOrder :: "(nat \<Rightarrow> bool) \<Rightarrow> nat option \<Rightarrow> nat \<Rightarrow> 'n db \<Rightarrow> 'n outcome" where
  "getOrder fails sess orderId d =
     (if not_logged_in sess
      then \<lparr>reply = (401, Error ''Not logged in''), store = d, calls = 0\<rparr>
      else if fails 0
      then \<lparr>reply = (500, Error ''Failed to fetch order''), store = d, calls = 1\<rparr>
      else
        (case owned_orders d orderId (the sess) of
           [] \<Rightarrow> \<lparr>reply = (404, Error ''Order not found''), store = d, calls = 1\<rparr>
         | row # _ \<Rightarrow>
             if fails 1
             then \<lparr>reply = (500, Error ''Failed to fetch order''), store = d, calls = 2\<rparr>
             else \<lparr>reply = (200, OrderInfo row (order_details d orderId)), store = d,
                   calls = 2\<rparr>))"

section \<open>Adding to the cart\<close>

text \<open>
  A number passed as a query parameter is written into the SQL text. \<^verbatim>\<open>NaN\<close> and
  \<^verbatim>\<open>Infinity\<close> are no SQL literals: the query throws. The numbers passed here are
  results of \<^verbatim>\<open>parseInt\<close>, integers otherwise; the range of the column is not
  modelled.
\<close>

definition sql_int :: "jsnum \<Rightarrow> int option" where
  "sql_int x = (case x of Fin a \<Rightarrow> if of_int \<lfloor>a\<rfloor> = a then Some \<lfloor>a\<rfloor> else None | _ \<Rightarrow> None)"

definition cart_failed :: "'n db \<Rightarrow> nat \<Rightarrow> 'n outcome" where
  "cart_failed d n = \<lparr>reply = (500, Error ''Failed to add to cart''), store = d, calls = n\<rparr>"

text \<open>
  \<^verbatim>\<open>POST /api/cart\<close> with the body fields \<^verbatim>\<open>isbn\<close> (a string) and \<^verbatim>\<open>qty\<close>.
  The test is made on \<^verbatim>\<open>qty\<close> as it came, \<^verbatim>\<open>!qty || qty < 1\<close>; what is stored
  or added is \<^verbatim>\<open>parseInt(qty)\<close>.
\<close>

definition addItem :: "(nat \<Rightarrow> bool) \<Rightarrow> nat option \<Rightarrow> isbn \<Rightarrow> jsval \<Rightarrow> 'n db \<Rightarrow> 'n outcome" where
  "addItem fails sess isbn qty d =
     (if not_logged_in sess
      then \<lparr>reply = (401, Error ''Not logged in''), store = d, calls = 0\<rparr>
      else
        let userId = the sess in
        if js_not qty \<or> js_less (to_number qty) (Fin 1)
        then \<lparr>reply = (400, Error ''Quantity must be at least 1''), store = d, calls = 0\<rparr>
        else if fails 0 then cart_failed d 1
        else
          let existing = filter (\<lambda>c. c_userid c = userId \<and> c_isbn c = isbn) (cart d) in
          (case sql_int (parseInt qty) of
             None \<Rightarrow> cart_failed d 2
           | Some n \<Rightarrow>
               if fails 1 then cart_failed d 2
               else if existing \<noteq> []
               then \<lparr>reply = (200, Success),
                     store = d\<lparr>cart := map (\<lambda>c. if c_userid c = userId \<and> c_isbn c = isbn
                                                then c\<lparr>c_qty := c_qty c + n\<rparr> else c) (cart d)\<rparr>,
                     calls = 2\<rparr>
               else \<lparr>reply = (200, Success),
                     store = d\<lparr>cart := cart d @ [\<lparr>c_userid = userId, c_isbn = isbn, c_qty = n\<rparr>]\<rparr>,
                     calls = 2\<rparr>))"

section \<open>Searching the catalog\<close>

text \<open>
  \<^verbatim>\<open>LIMIT ? OFFSET ?\<close> take nonnegative integer literals, below \<open>2 ^ 64\<close>; with any
  other number in their place the query throws.
\<close>

definition sql_limit :: "jsnum \<Rightarrow> nat option" where
  "sql_limit x =
     (case x of
        Fin a \<Rightarrow> if of_int \<lfloor>a\<rfloor> = a \<and> 0 \<le> a \<and> a < 2 ^ 64 then Some (nat \<lfloor>a\<rfloor>) else None
      | _ \<Rightarrow> None)"

text \<open>
  \<^verbatim>\<open>LOWER\<close> on the letters A to Z, and \<^verbatim>\<open>LIKE\<close> with its wildcards
  \<^verbatim>\<open>%\<close> and \<^verbatim>\<open>_\<close> and the escape character backslash; the first argument is the
  text, the second the pattern.
\<close>

definition sql_lower :: "string \<Rightarrow> string" where
  "sql_lower s =
     map (\<lambda>c. if 65 \<le> (of_char c :: nat) \<and> (of_char c :: nat) \<le> 90
               then char_of (of_char c + 32 :: nat) else c) s"

fun sql_like :: "string \<Rightarrow> string \<Rightarrow> bool" where
  "sql_like [] [] = True"
| "sql_like (c # s) [] = False"
| "sql_like [] (p # ps) = (p = CHR ''%'' \<and> sql_like [] ps)"
| "sql_like (c # s) (p # ps) =
     (if p = CHR ''%'' then sql_like (c # s) ps \<or> sql_like s (p # ps)
      else if p = CHR ''_'' then sql_like s ps
      else if p = CHR 0x5C
      then (case ps of [] \<Rightarrow> c = p \<and> s = [] | q # qs \<Rightarrow> c = q \<and> sql_like s qs)
      else c = p \<and> sql_like s ps)"

definition search_failed :: "'n db \<Rightarrow> nat \<Rightarrow> 'n outcome" where
  "search_failed d n = \<lparr>reply = (500, Error ''Failed to fetch books''), store = d, calls = n\<rparr>"

text \<open>
  The body the three search handlers share; \<open>matches\<close> is the \<^verbatim>\<open>WHERE\<close> clause.
  \<open>pageq\<close> and \<open>limitq\<close> are \<^verbatim>\<open>req.query.page\<close> and \<^verbatim>\<open>req.query.limit\<close>, strings
  or \<^verbatim>\<open>undefined\<close>.
\<close>

definition search_books ::
  "(nat \<Rightarrow> bool) \<Rightarrow> ('n book \<Rightarrow> bool) \<Rightarrow> jsval \<Rightarrow> jsval \<Rightarrow> 'n db \<Rightarrow> 'n outcome" where
  "search_books fails matches pageq limitq d =
     (let page = js_or (parseInt pageq) (Fin 1);
          limit = js_or (parseInt limitq) (Fin 5);
          offset = js_mul (js_sub page (Fin 1)) limit
      in case (sql_limit limit, sql_limit offset) of
           (Some l, Some off) \<Rightarrow>
             if fails 0 then search_failed d 1
             else
               let found = take l (drop off (filter matches (books d))) in
               if fails 1 then search_failed d 2
               else
                 let total = length (filter matches (books d))
                 in \<lparr>reply = (200, BookPage found total page
                                   (js_ceil (js_div (Fin (of_nat total)) limit))),
                     store = d, calls = 2\<rparr>
         | _ \<Rightarrow> search_failed d 1)"



text \<open>\<^verbatim>\<open>GET /api/books/title/:title\<close>: \<^verbatim>\<open>WHERE LOWER(title) LIKE LOWER(?)\<close> with \<^verbatim>\<open>'%' + title + '%'\<close>.\<close>

definition books_by_title ::
  "(nat \<Rightarrow> bool) \<Rightarrow> string \<Rightarrow> jsval \<Rightarrow> jsval \<Rightarrow> 'n db \<Rightarrow> 'n outcome" where
  "books_by_title fails title pageq limitq d =
     search_books fails (\<lambda>b. sql_like (sql_lower (b_title b)) (sql_lower (''%'' @ title @ ''%'')))
       pageq limitq d"

section \<open>Registration\<close>

text \<open>
  The two validation helpers test a string against a regular expression anchored at both
  ends. Regular expressions are matched by derivatives.
\<close>

datatype rx = Zero | One | Sym "char \<Rightarrow> bool" | Alt rx rx | Seq rx rx | Star rx

fun nullable :: "rx \<Rightarrow> bool" where
  "nullable Zero = False"
| "nullable One = True"
| "nullable (Sym f) = False"
| "nullable (Alt r s) = (nullable r \<or> nullable s)"
| "nullable (Seq r s) = (nullable r \<and> nullable s)"
| "nullable (Star r) = True"

fun deriv :: "char \<Rightarrow> rx \<Rightarrow> rx" where
  "deriv c Zero = Zero"
| "deriv c One = Zero"
| "deriv c (Sym f) = (if f c then One else Zero)"
| "deriv c (Alt r s) = Alt (deriv c r) (deriv c s)"
| "deriv c (Seq r s) =
     (if nullable r then Alt (Seq (deriv c r) s) (deriv c s) else Seq (deriv c r) s)"
| "deriv c (Star r) = Seq (deriv c r) (Star r)"

fun rx_match :: "rx \<Rightarrow> string \<Rightarrow> bool" where
  "rx_match r [] = nullable r"
| "rx_match r (c # cs) = rx_match (deriv c r) cs"

definition plus_rx :: "rx \<Rightarrow> rx" where
  "plus_rx r = Seq r (Star r)"

text \<open>\<^verbatim>\<open>[^\s@]\<close> and \<^verbatim>\<open>\d\<close>.\<close>

definition no_space_at :: "char \<Rightarrow> bool" where
  "no_space_at c = (\<not> js_space c \<and> c \<noteq> CHR ''@'')"

definition decimal_digit :: "char \<Rightarrow> bool" where
  "decimal_digit c = (48 \<le> (of_char c :: nat) \<and> (of_char c :: nat) \<le> 57)"

text \<open>\<^verbatim>\<open>/^[^\s@]+@[^\s@]+\.[^\s@]+$/\<close>\<close>

definition validateEmail :: "string \<Rightarrow> bool" where
  "validateEmail email =
     rx_match (Seq (plus_rx (Sym no_space_at))
              (Seq (Sym (\<lambda>c. c = CHR ''@''))
              (Seq (plus_rx (Sym no_space_at))
              (Seq (Sym (\<lambda>c. c = CHR ''.''))
                   (plus_rx (Sym no_space_at)))))) email"

text \<open>\<^verbatim>\<open>/^\d{5}$/\<close>, on a zip that is a string.\<close>

definition validateZip :: "string \<Rightarrow> bool" where
  "validateZip zipcode =
     rx_match (Seq (Sym decimal_digit) (Seq (Sym decimal_digit) (Seq (Sym decimal_digit)
              (Seq (Sym decimal_digit) (Sym decimal_digit))))) zipcode"

text \<open>
  The body of \<^verbatim>\<open>POST /api/register\<close>. The fields are strings; \<^verbatim>\<open>email\<close>,
  \<^verbatim>\<open>zip\<close> and \<^verbatim>\<open>password\<close> may be missing (\<^verbatim>\<open>undefined\<close>).
\<close>

record registration =
  reg_fname :: string
  reg_lname :: string
  reg_address :: string
  reg_city :: string
  reg_zip :: "string option"
  reg_phone :: string
  reg_email :: "string option"
  reg_password :: "string option"

definition register_failed :: "'n db \<Rightarrow> nat \<Rightarrow> 'n outcome" where
  "register_failed d n = \<lparr>reply = (500, Error ''Registration failed''), store = d, calls = n\<rparr>"

text \<open>
  \<open>hash\<close> is \<^verbatim>\<open>bcrypt.hash(password, 10)\<close>. \<^verbatim>\<open>re.test(undefined)\<close> tests the
  string \<^verbatim>\<open>undefined\<close>; \<^verbatim>\<open>zip.toString()\<close> and \<^verbatim>\<open>password.length\<close> throw on
  \<^verbatim>\<open>undefined\<close>.
\<close>

definition register ::
  "(nat \<Rightarrow> bool) \<Rightarrow> (string \<Rightarrow> string) \<Rightarrow> registration \<Rightarrow> 'n db \<Rightarrow> 'n outcome" where
  "register fails hash body d =
     (if \<not> validateEmail (case reg_email body of None \<Rightarrow> ''undefined'' | Some e \<Rightarrow> e)
      then \<lparr>reply = (400, Error ''Invalid email format''), store = d, calls = 0\<rparr>
      else
        (case reg_zip body of
           None \<Rightarrow> register_failed d 0
         | Some z \<Rightarrow>
             if \<not> validateZip z
             then \<lparr>reply = (400, Error ''Zip code must be 5 digits''), store = d, calls = 0\<rparr>
             else
               (case reg_password body of
                  None \<Rightarrow> register_failed d 0
                | Some pw \<Rightarrow>
                    if length pw < 6
                    then \<lparr>reply = (400, Error ''Password must be at least 6 characters''),
                          store = d, calls = 0\<rparr>
                    else if fails 0 then register_failed d 1
                    else
                      let e = (case reg_email body of None \<Rightarrow> ''undefined'' | Some e \<Rightarrow> e);
                          existing = filter (\<lambda>m. m_email m = e) (members d)
                      in if existing \<noteq> []
                         then \<lparr>reply = (400, Error ''Email already exists''), store = d,
                               calls = 1\<rparr>
                         else
                           let hashedPassword = hash pw in
                           (case sql_int (parseInt_str z) of
                              None \<Rightarrow> register_failed d 2
                            | Some zipnum \<Rightarrow>
                                if fails 1 then register_failed d 2
                                else
                                  \<lparr>reply = (200, SuccessMessage ''Account created successfully''),
                                   store = d\<lparr>members := members d @
                                       [\<lparr>m_userid = next_userid d, m_fname = reg_fname body,
                                         m_lname = reg_lname body, m_address = reg_address body,
                                         m_city = reg_city body, m_zip = zipnum,
                                         m_phone = reg_phone body, m_email = e,
                                         m_password = hashedPassword\<rparr>],
                                     next_userid := Suc (next_userid d)\<rparr>,
                                   calls = 2\<rparr>))))"

section \<open>Properties of the store used in the statements\<close>

text \<open>Every order line has a parent order.\<close>

definition parented :: "'n db \<Rightarrow> bool" where
  "parented d = (\<forall>l\<in>set (odetails d). \<exists>ord\<in>set (orders d). o_ono ord = d_ono l)"

text \<open>
  The store after checkout has written the order of \<open>userId\<close> and the lines of the first
  \<open>n\<close> items of the cart.
\<close>

definition order_written ::
  "(int \<Rightarrow> 'n \<Rightarrow> 'n) \<Rightarrow> string \<Rightarrow> nat \<Rightarrow> member \<Rightarrow> nat \<Rightarrow> 'n db \<Rightarrow> 'n db" where
  "order_written mul today userId user n d =
     d\<lparr>orders := orders d @ [order_row (next_ono d) userId today user],
       next_ono := Suc (next_ono d),
       odetails := odetails d @ map (detail_row mul (next_ono d)) (take n (cart_items d userId))\<rparr>"

text \<open>A small store on which the statements are evaluated; prices are in cents.\<close>

definition example_db :: "int db" where
  "example_db =
     \<lparr>members =
        [\<lparr>m_userid = 1, m_fname = ''Ada'', m_lname = ''Berg'', m_address = ''1 Elm Street'',
          m_city = ''Lund'', m_zip = 22100, m_phone = ''555-0100'', m_email = ''ada@example.org'',
          m_password = ''$2b$10$hash1''\<rparr>,
         \<lparr>m_userid = 2, m_fname = ''Bo'', m_lname = ''Ek'', m_address = ''2 Oak Road'',
          m_city = ''Ystad'', m_zip = 27100, m_phone = ''555-0101'', m_email = ''bo@example.org'',
          m_password = ''$2b$10$hash2''\<rparr>],
      books =
        [\<lparr>b_isbn = ''B1'', b_title = ''Algebra'', b_author = ''Noether'', b_subject = ''Math'',
          b_price = 1000\<rparr>,
         \<lparr>b_isbn = ''B2'', b_title = ''Birds'', b_author = ''Audubon'', b_subject = ''Nature'',
          b_price = 550\<rparr>],
      cart =
        [\<lparr>c_userid = 1, c_isbn = ''B1'', c_qty = 5\<rparr>,
         \<lparr>c_userid = 2, c_isbn = ''B1'', c_qty = 1\<rparr>,
         \<lparr>c_userid = 1, c_isbn = ''B2'', c_qty = 1\<rparr>],
      orders =
        [\<lparr>o_ono = 1, o_userid = 2, o_created = ''2024-04-30'', o_shipAddress = ''2 Oak Road'',
          o_shipCity = ''Ystad'', o_shipZip = 27100\<rparr>],
      odetails = [\<lparr>d_ono = 1, d_isbn = ''B2'', d_qty = 2, d_amount = 1100\<rparr>],
      next_ono = 2,
      next_userid = 3\<rparr>"



text \<open>The cart lines of one user for one book.\<close>

definition lines_of :: "'n db \<Rightarrow> nat \<Rightarrow> isbn \<Rightarrow> cart_line list" where
  "lines_of d u b = filter (\<lambda>c. c_userid c = u \<and> c_isbn c = b) (cart d)"

text \<open>A registration with the email of a member of the example store.\<close>

definition example_registration :: registration where
  "example_registration =
     \<lparr>reg_fname = ''Ada'', reg_lname = ''Berg'', reg_address = ''9 Fir Way'', reg_city = ''Lund'',
      reg_zip = Some ''22100'', reg_phone = ''555-0199'', reg_email = Some ''ada@example.org'',
      reg_password = Some ''opensesame''\<rparr>"

text \<open>
  The string \<open>ds @ fs\<close> is a plain decimal numeral: a run of decimal digits \<open>ds\<close>, followed
  by nothing or by a point and decimal digits only.
\<close>

definition plain_decimal :: "string \<Rightarrow> string \<Rightarrow> bool" where
  "plain_decimal ds fs =
     (all_digits 10 ds \<and> (fs = [] \<or> hd fs = CHR ''.'' \<and> list_all (is_digit 10) (tl fs)))"

text \<open>
  A store whose prices are decimal strings, with the cart of user 1 holding five copies of
  one book and one copy of another.
\<close>

definition example_shop :: "jsval db" where
  "example_shop =
     \<lparr>members =
        [\<lparr>m_userid = 1, m_fname = ''Ada'', m_lname = ''Berg'', m_address = ''1 Elm Street'',
          m_city = ''Lund'', m_zip = 22100, m_phone = ''555-0100'', m_email = ''ada@example.org'',
          m_password = ''$2b$10$hash1''\<rparr>],
      books =
        [\<lparr>b_isbn = ''B1'', b_title = ''Algebra'', b_author = ''Noether'', b_subject = ''Math'',
          b_price = JStr ''10.00''\<rparr>,
         \<lparr>b_isbn = ''B2'', b_title = ''Birds'', b_author = ''Audubon'', b_subject = ''Nature'',
          b_price = JStr ''5.50''\<rparr>],
      cart =
        [\<lparr>c_userid = 1, c_isbn = ''B1'', c_qty = 5\<rparr>,
         \<lparr>c_userid = 1, c_isbn = ''B2'', c_qty = 1\<rparr>],
      orders = [],
      odetails = [],
      next_ono = 1,
      next_userid = 2\<rparr>"

text \<open>
  A store with one book priced 0.10, delivered as the decimal string \<^verbatim>\<open>"0.10"\<close>, and
  three copies of it in the cart of user 1.
\<close>

definition dime_shop :: "jsval db" where
  "dime_shop =
     \<lparr>members =
        [\<lparr>m_userid = 1, m_fname = ''Ada'', m_lname = ''Berg'', m_address = ''1 Elm Street'',
          m_city = ''Lund'', m_zip = 22100, m_phone = ''555-0100'', m_email = ''ada@example.org'',
          m_password = ''$2b$10$hash1''\<rparr>],
      books =
        [\<lparr>b_isbn = ''B3'', b_title = ''Coins'', b_author = ''Mint'', b_subject = ''History'',
          b_price = JStr ''0.10''\<rparr>],
      cart = [\<lparr>c_userid = 1, c_isbn = ''B3'', c_qty = 3\<rparr>],
      orders = [],
      odetails = [],
      next_ono = 1,
      next_userid = 2\<rparr>"

section \<open>Checkout: what is written, and when\<close>

lemma insert_details_result:
  "insert_details fails mul k orderId items d = (finished, d2, k2) \<Longrightarrow>
     \<exists>n. n \<le> length items \<and> (finished \<longrightarrow> n = length items) \<and>
         d2 = d\<lparr>odetails := odetails d @ map (detail_row mul orderId) (take n items)\<rparr>"
proof (induction items arbitrary: k d)
  case Nil
  then show ?case by simp
next
  case (Cons item rest)
  show ?case
  proof (cases "fails k")
    case True
    with Cons.prems have "d2 = d" "\<not> finished" by auto
    then show ?thesis by (intro exI [of _ 0]) simp
  next
    case False
    let ?d = "d\<lparr>odetails := odetails d @ [detail_row mul orderId item]\<rparr>"
    from False Cons.prems
    have "insert_details fails mul (Suc k) orderId rest ?d = (finished, d2, k2)" by simp
    from Cons.IH [OF this] obtain n where
      n: "n \<le> length rest" "finished \<longrightarrow> n = length rest"
         "d2 = ?d\<lparr>odetails := odetails ?d @ map (detail_row mul orderId) (take n rest)\<rparr>"
      by blast
    then show ?thesis by (intro exI [of _ "Suc n"]) simp
  qed
qed

lemma checkout_cases:
  "(store (checkout fails mul today sess d) = d \<and> fst (reply (checkout fails mul today sess d)) \<noteq> 200) \<or>
   (\<exists>u user n. sess = Some u \<and> n \<le> length (cart_items d u) \<and>
       store (checkout fails mul today sess d) = order_written mul today u user n d \<and>
       fst (reply (checkout fails mul today sess d)) = 500) \<or>
   (\<exists>u user. sess = Some u \<and>
       store (checkout fails mul today sess d) =
         (order_written mul today u user (length (cart_items d u)) d)
           \<lparr>cart := filter (\<lambda>c. c_userid c \<noteq> u) (cart d)\<rparr> \<and>
       reply (checkout fails mul today sess d) = (200, SuccessOrder (next_ono d)))"
proof (cases "not_logged_in sess")
  case True
  then show ?thesis by (simp add: checkout_def)
next
  case False
  then obtain u where u: "sess = Some u" by (cases sess) (auto simp: not_logged_in_def)
  show ?thesis
  proof (cases "fails 0 \<or> fails 1 \<or> cart_items d u = [] \<or>
                filter (\<lambda>m. m_userid m = u) (members d) = [] \<or> fails 2")
    case True
    then show ?thesis using False u
      by (auto simp: checkout_def checkout_failed_def Let_def split: list.splits)
  next
    case quiet: False
    then obtain user rest where users: "filter (\<lambda>m. m_userid m = u) (members d) = user # rest"
      by (cases "filter (\<lambda>m. m_userid m = u) (members d)") auto
    let ?d1 = "d\<lparr>orders := orders d @ [order_row (next_ono d) u today user],
                   next_ono := Suc (next_ono d)\<rparr>"
    obtain finished d2 k where
      loop: "insert_details fails mul 3 (next_ono d) (cart_items d u) ?d1 = (finished, d2, k)"
      by (metis prod_cases3)
    from insert_details_result [OF loop] obtain n where
      n: "n \<le> length (cart_items d u)" "finished \<longrightarrow> n = length (cart_items d u)"
         "d2 = order_written mul today u user n d"
      by (auto simp: order_written_def)
    have co: "checkout fails mul today sess d =
       (if \<not> finished then checkout_failed d2 k
        else if fails k then checkout_failed d2 (Suc k)
        else \<lparr>reply = (200, SuccessOrder (next_ono d)),
              store = d2\<lparr>cart := filter (\<lambda>c. c_userid c \<noteq> u) (cart d2)\<rparr>,
              calls = Suc k\<rparr>)"
      using False u quiet users loop by (simp add: checkout_def Let_def)
    have cart2: "cart d2 = cart d" using n(3) by (simp add: order_written_def)
    show ?thesis
    proof (cases "finished \<and> \<not> fails k")
      case True
      then show ?thesis using co n u cart2 by auto
    next
      case False
      then have "store (checkout fails mul today sess d) = d2"
        "fst (reply (checkout fails mul today sess d)) = 500"
        using co by (auto simp: checkout_failed_def)
      then show ?thesis using n u by blast
    qed
  qed
qed

lemma parented_order_written:
  "parented d \<Longrightarrow> parented (order_written mul today u user n d)"
  by (auto simp: parented_def order_written_def detail_row_def order_row_def dest: in_set_takeD)

lemma checkout_success:
  assumes "fst (reply (checkout fails mul today (Some u) d)) = 200"
  shows "\<exists>user. store (checkout fails mul today (Some u) d) =
           (order_written mul today u user (length (cart_items d u)) d)
             \<lparr>cart := filter (\<lambda>c. c_userid c \<noteq> u) (cart d)\<rparr>"
    and "reply (checkout fails mul today (Some u) d) = (200, SuccessOrder (next_ono d))"
  using checkout_cases [of fails mul today "Some u" d] assms by auto

lemma checkout_not_success:
  assumes "fst (reply (checkout fails mul today sess d)) \<noteq> 200"
  shows "cart (store (checkout fails mul today sess d)) = cart d"
  using checkout_cases [of fails mul today sess d] assms
  by (auto simp: order_written_def)

lemma checkout_new_lines:
  assumes ok: "reply (checkout f mul t (Some v) e) = (200, SuccessOrder i)"
    and fresh: "\<forall>l\<in>set (odetails e). d_ono l \<noteq> next_ono e"
  shows "i = next_ono e"
    and "filter (\<lambda>l. d_ono l = i) (odetails (store (checkout f mul t (Some v) e))) =
           map (detail_row mul i) (cart_items e v)"
proof -
  from ok have "fst (reply (checkout f mul t (Some v) e)) = 200" by simp
  from checkout_success [OF this] ok obtain user where
    st: "store (checkout f mul t (Some v) e) =
           (order_written mul t v user (length (cart_items e v)) e)
             \<lparr>cart := filter (\<lambda>c. c_userid c \<noteq> v) (cart e)\<rparr>"
    and i: "i = next_ono e" by auto
  have old: "filter (\<lambda>l. d_ono l = next_ono e) (odetails e) = []"
    using fresh by (simp add: filter_empty_conv)
  have new: "filter (\<lambda>l. d_ono l = next_ono e) (map (detail_row mul (next_ono e)) xs) =
      map (detail_row mul (next_ono e)) xs" for xs
    by (induction xs) (simp_all add: detail_row_def)
  show "i = next_ono e" by (rule i)
  show "filter (\<lambda>l. d_ono l = i) (odetails (store (checkout f mul t (Some v) e))) =
           map (detail_row mul i) (cart_items e v)"
    using i old new by (simp add: st order_written_def)
qed

lemma amounts_detail_rows:
  "map d_amount (map (detail_row mul i) xs) = map (\<lambda>item. mul (i_qty item) (i_price item)) xs"
  by (simp add: detail_row_def)

lemma checkout_new_amounts:
  assumes "reply (checkout f mul t (Some v) e) = (200, SuccessOrder i)"
    and "\<forall>l\<in>set (odetails e). d_ono l \<noteq> next_ono e"
  shows "map d_amount (filter (\<lambda>l. d_ono l = i) (odetails (store (checkout f mul t (Some v) e)))) =
           map (\<lambda>item. mul (i_qty item) (i_price item)) (cart_items e v)"
  by (simp only: checkout_new_lines(2) [OF assms] amounts_detail_rows)

lemma cart_items_no_lines:
  "filter (\<lambda>c. c_userid c = u) (cart d) = [] \<Longrightarrow> cart_items d u = []"
  by (simp add: cart_items_def)

lemma cart_rows_no_lines:
  "filter (\<lambda>c. c_userid c = u) (cart d) = [] \<Longrightarrow> cart_rows mul d u = []"
  by (simp add: cart_rows_def)

lemma owned_orders_foreign:
  "\<forall>ord\<in>set (orders d). o_ono ord = orderId \<longrightarrow> o_userid ord \<noteq> u \<Longrightarrow>
     owned_orders d orderId u = []"
  by (auto simp: owned_orders_def filter_empty_conv)

text \<open>
  Claim C1, as the code has it. Checkout issues the order insert and one insert for each
  cart item as separate store calls, with no transaction around them. Whatever store call
  fails: no order line is left without a parent order; the order lines written are those
  of the first \<open>n\<close> items of the cart snapshot, for some \<open>n\<close>, and lines are written only
  after the order record; and when checkout reports success the order record and the
  lines of all items of the snapshot are written.
\<close>

theorem checkout_order_lines:
  "(parented d \<longrightarrow> parented (store (checkout fails mul today sess d))) \<and>
   (case sess of
      None \<Rightarrow> store (checkout fails mul today sess d) = d
    | Some userId \<Rightarrow>
        (\<exists>n. n \<le> length (cart_items d userId) \<and>
           odetails (store (checkout fails mul today sess d)) =
             odetails d @ map (detail_row mul (next_ono d)) (take n (cart_items d userId)) \<and>
           (orders (store (checkout fails mul today sess d)) = orders d \<and> n = 0 \<or>
            (\<exists>user. orders (store (checkout fails mul today sess d)) =
               orders d @ [order_row (next_ono d) userId today user])) \<and>
           (fst (reply (checkout fails mul today sess d)) = 200 \<longrightarrow>
              n = length (cart_items d userId) \<and>
              (\<exists>user. orders (store (checkout fails mul today sess d)) =
                 orders d @ [order_row (next_ono d) userId today user]))))"
proof -
  let ?r = "checkout fails mul today sess d"
  consider
    (same) "store ?r = d" "fst (reply ?r) \<noteq> 200"
  | (part) u user n where "sess = Some u" "n \<le> length (cart_items d u)"
      "store ?r = order_written mul today u user n d" "fst (reply ?r) = 500"
  | (full) u user where "sess = Some u"
      "store ?r = (order_written mul today u user (length (cart_items d u)) d)
         \<lparr>cart := filter (\<lambda>c. c_userid c \<noteq> u) (cart d)\<rparr>"
      "reply ?r = (200, SuccessOrder (next_ono d))"
    using checkout_cases [of fails mul today sess d] by blast
  then show ?thesis
  proof cases
    case same
    then show ?thesis by (auto split: option.splits intro: exI [of _ 0])
  next
    case part
    have "parented d \<longrightarrow> parented (store ?r)"
      using part(3) parented_order_written by metis
    moreover have "odetails (store ?r) =
        odetails d @ map (detail_row mul (next_ono d)) (take n (cart_items d u))"
      "orders (store ?r) = orders d @ [order_row (next_ono d) u today user]"
      using part(3) by (simp_all add: order_written_def)
    ultimately show ?thesis using part(1,2,4) by auto
  next
    case full
    have "parented d \<Longrightarrow> parented (store ?r)"
      using parented_order_written [of d mul today u user "length (cart_items d u)"]
      by (simp add: full(2) parented_def)
    moreover have "odetails (store ?r) =
        odetails d @ map (detail_row mul (next_ono d)) (take (length (cart_items d u)) (cart_items d u))"
      "orders (store ?r) = orders d @ [order_row (next_ono d) u today user]"
      using full(2) by (simp_all add: order_written_def)
    ultimately show ?thesis using full(1) by (auto intro!: exI [of _ "length (cart_items d u)"])
  qed
qed

theorem checkout_order_lines_witness:
  "parented example_db \<and>
   parented (store (checkout (failure_at 4) (*) ''2024-05-01'' (Some 1) example_db)) \<and>
   map d_ono (odetails (store (checkout (failure_at 4) (*) ''2024-05-01'' (Some 1) example_db))) = [1, 2] \<and>
   map d_ono (odetails (store (checkout no_failure (*) ''2024-05-01'' (Some 1) example_db))) = [1, 2, 2] \<and>
   fst (reply (checkout no_failure (*) ''2024-05-01'' (Some 1) example_db)) = 200"
proof -
  have p: "parented example_db" by (simp add: parented_def example_db_def)
  have "parented (store (checkout (failure_at 4) (*) ''2024-05-01'' (Some 1) example_db))"
    using checkout_order_lines [of example_db "failure_at 4" "(*)" "''2024-05-01''" "Some 1"] p
    by blast
  then show ?thesis using p
    by (simp add: checkout_def example_db_def cart_items_def failure_at_def no_failure_def
        not_logged_in_def order_row_def detail_row_def checkout_failed_def)
qed

text \<open>
  Claim C1 as stated fails: when the insert of the second order line throws (store call 4),
  the order record 2 and its first line stay in the store, and the line for the second
  item of the snapshot is missing.
\<close>

theorem checkout_partial_write:
  "map o_ono (orders (store (checkout (failure_at 4) (*) ''2024-05-01'' (Some 1) example_db))) = [1, 2] \<and>
   map d_ono (odetails (store (checkout (failure_at 4) (*) ''2024-05-01'' (Some 1) example_db))) = [1, 2] \<and>
   map d_isbn (odetails (store (checkout (failure_at 4) (*) ''2024-05-01'' (Some 1) example_db))) = [''B2'', ''B1''] \<and>
   map i_isbn (cart_items example_db 1) = [''B1'', ''B2''] \<and>
   map o_ono (orders example_db) = [1] \<and>
   reply (checkout (failure_at 4) (*) ''2024-05-01'' (Some 1) example_db) = (500, Error ''Checkout failed'')"
  by (simp add: checkout_def example_db_def cart_items_def failure_at_def not_logged_in_def
      order_row_def detail_row_def checkout_failed_def)

text \<open>
  Claim C4. For a logged-in user with no cart line, checkout changes nothing in the store
  (no order, no order line, the cart as it was), issues the two reads only, and answers
  400 \<^verbatim>\<open>Cart is empty\<close>, unless one of the two reads throws, in which case the answer
  is 500.
\<close>

theorem checkout_empty_cart:
  assumes "u \<noteq> 0" and "filter (\<lambda>c. c_userid c = u) (cart d) = []"
  shows "store (checkout fails mul today (Some u) d) = d \<and>
     calls (checkout fails mul today (Some u) d) \<le> 2 \<and>
     reply (checkout fails mul today (Some u) d) =
       (if fails 0 \<or> fails 1 then (500, Error ''Checkout failed'')
        else (400, Error ''Cart is empty''))"
  using assms
  by (simp add: checkout_def cart_items_no_lines not_logged_in_def checkout_failed_def)

theorem checkout_empty_cart_witness:
  "(3::nat) \<noteq> 0 \<and> filter (\<lambda>c. c_userid c = 3) (cart example_db) = [] \<and>
   store (checkout no_failure (*) ''2024-05-01'' (Some 3) example_db) = example_db \<and>
   reply (checkout no_failure (*) ''2024-05-01'' (Some 3) example_db) = (400, Error ''Cart is empty'')"
proof -
  have h: "(3::nat) \<noteq> 0" "filter (\<lambda>c. c_userid c = 3) (cart example_db) = []"
    by (simp_all add: example_db_def)
  show ?thesis
    using h checkout_empty_cart [OF h, of no_failure "(*)" "''2024-05-01''"]
    by (simp add: no_failure_def)
qed

text \<open>
  Claim C5. When checkout answers 200, the user's cart lines are deleted (those of other
  users stay), \<^verbatim>\<open>GET /api/cart\<close> then returns the empty list, and the order and all
  its lines have been written; when checkout gives any other answer, the cart is as it
  was.
\<close>

theorem checkout_clears_cart:
  "(fst (reply (checkout fails mul today (Some u) d)) = 200 \<longrightarrow>
      cart (store (checkout fails mul today (Some u) d)) = filter (\<lambda>c. c_userid c \<noteq> u) (cart d) \<and>
      reply (getCart no_failure mul2 (Some u) (store (checkout fails mul today (Some u) d))) =
        (200, CartRows []) \<and>
      (\<exists>user. orders (store (checkout fails mul today (Some u) d)) =
         orders d @ [order_row (next_ono d) u today user]) \<and>
      odetails (store (checkout fails mul today (Some u) d)) =
        odetails d @ map (detail_row mul (next_ono d)) (cart_items d u)) \<and>
   (fst (reply (checkout fails mul today (Some u) d)) \<noteq> 200 \<longrightarrow>
      cart (store (checkout fails mul today (Some u) d)) = cart d)"
proof (intro conjI impI)
  assume ok: "fst (reply (checkout fails mul today (Some u) d)) = 200"
  from checkout_success(1) [OF ok] obtain user where
    st: "store (checkout fails mul today (Some u) d) =
           (order_written mul today u user (length (cart_items d u)) d)
             \<lparr>cart := filter (\<lambda>c. c_userid c \<noteq> u) (cart d)\<rparr>" by blast
  have u: "\<not> not_logged_in (Some u)"
    using ok by (auto simp: checkout_def)
  show "cart (store (checkout fails mul today (Some u) d)) = filter (\<lambda>c. c_userid c \<noteq> u) (cart d)"
    by (simp add: st)
  then have "filter (\<lambda>c. c_userid c = u) (cart (store (checkout fails mul today (Some u) d))) = []"
    by (simp add: filter_empty_conv)
  then show "reply (getCart no_failure mul2 (Some u) (store (checkout fails mul today (Some u) d))) =
        (200, CartRows [])"
    using u by (simp add: getCart_def no_failure_def cart_rows_no_lines)
  show "\<exists>user. orders (store (checkout fails mul today (Some u) d)) =
         orders d @ [order_row (next_ono d) u today user]"
    by (rule exI [of _ user]) (simp add: st order_written_def)
  show "odetails (store (checkout fails mul today (Some u) d)) =
        odetails d @ map (detail_row mul (next_ono d)) (cart_items d u)"
    by (simp add: st order_written_def)
next
  assume "fst (reply (checkout fails mul today (Some u) d)) \<noteq> 200"
  then show "cart (store (checkout fails mul today (Some u) d)) = cart d"
    by (rule checkout_not_success)
qed

theorem checkout_clears_cart_witness:
  "fst (reply (checkout no_failure (*) ''2024-05-01'' (Some 1) example_db)) = 200 \<and>
   map c_userid (cart (store (checkout no_failure (*) ''2024-05-01'' (Some 1) example_db))) = [2] \<and>
   reply (getCart no_failure (*) (Some 1)
            (store (checkout no_failure (*) ''2024-05-01'' (Some 1) example_db))) =
     (200, CartRows []) \<and>
   fst (reply (checkout (failure_at 5) (*) ''2024-05-01'' (Some 1) example_db)) = 500 \<and>
   cart (store (checkout (failure_at 5) (*) ''2024-05-01'' (Some 1) example_db)) = cart example_db"
proof -
  have ok: "fst (reply (checkout no_failure (*) ''2024-05-01'' (Some 1) example_db)) = 200"
    by (simp add: checkout_def example_db_def cart_items_def no_failure_def not_logged_in_def
        order_row_def detail_row_def checkout_failed_def)
  have ko: "fst (reply (checkout (failure_at 5) (*) ''2024-05-01'' (Some 1) example_db)) = 500"
    by (simp add: checkout_def example_db_def cart_items_def failure_at_def not_logged_in_def
        order_row_def detail_row_def checkout_failed_def)
  have a: "cart (store (checkout no_failure (*) ''2024-05-01'' (Some 1) example_db)) =
      filter (\<lambda>c. c_userid c \<noteq> 1) (cart example_db)"
    and b: "reply (getCart no_failure (*) (Some 1)
            (store (checkout no_failure (*) ''2024-05-01'' (Some 1) example_db))) =
     (200, CartRows [])"
    using checkout_clears_cart [of no_failure "(*)" "''2024-05-01''" 1 example_db "(*)"] ok
    by simp_all
  have c: "cart (store (checkout (failure_at 5) (*) ''2024-05-01'' (Some 1) example_db)) = cart example_db"
    using checkout_clears_cart [of "failure_at 5" "(*)" "''2024-05-01''" 1 example_db] ko
    by simp
  have "map c_userid (filter (\<lambda>c. c_userid c \<noteq> 1) (cart example_db)) = [2]"
    by (simp add: example_db_def)
  then show ?thesis using ok ko a b c by simp
qed

text \<open>
  Claim C7. A logged-in user \<open>u2\<close> who asks for an order number that only other users'
  orders have gets 404 \<^verbatim>\<open>Order not found\<close> (500 when the read throws), the same
  reply after the same number of store calls as on a store \<open>d'\<close> in which no order has
  that number.
\<close>

theorem getOrder_foreign_order:
  assumes "u2 \<noteq> 0"
    and "\<forall>ord\<in>set (orders d). o_ono ord = orderId \<longrightarrow> o_userid ord \<noteq> u2"
    and "\<forall>ord\<in>set (orders d'). o_ono ord \<noteq> orderId"
  shows "reply (getOrder fails (Some u2) orderId d) =
       (if fails 0 then (500, Error ''Failed to fetch order'')
        else (404, Error ''Order not found'')) \<and>
     reply (getOrder fails (Some u2) orderId d) = reply (getOrder fails (Some u2) orderId d') \<and>
     calls (getOrder fails (Some u2) orderId d) = calls (getOrder fails (Some u2) orderId d') \<and>
     store (getOrder fails (Some u2) orderId d) = d"
proof -
  have "owned_orders d orderId u2 = []"
    using assms(2) by (rule owned_orders_foreign)
  moreover have "owned_orders d' orderId u2 = []"
    using assms(3) by (intro owned_orders_foreign) simp
  ultimately show ?thesis
    using assms(1) by (simp add: getOrder_def not_logged_in_def)
qed

theorem getOrder_foreign_order_witness:
  "map o_ono (orders example_db) = [1] \<and> map o_userid (orders example_db) = [2] \<and>
   fst (reply (getOrder no_failure (Some 2) 1 example_db)) = 200 \<and>
   reply (getOrder no_failure (Some 1) 1 example_db) = (404, Error ''Order not found'') \<and>
   reply (getOrder no_failure (Some 1) 1 example_db) =
     reply (getOrder no_failure (Some 1) 1 (example_db\<lparr>orders := []\<rparr>))"
proof -
  have h: "(1::nat) \<noteq> 0"
    "\<forall>ord\<in>set (orders example_db). o_ono ord = 1 \<longrightarrow> o_userid ord \<noteq> 1"
    "\<forall>ord\<in>set (orders (example_db\<lparr>orders := []\<rparr>)). o_ono ord \<noteq> 1"
    by (simp_all add: example_db_def)
  have "fst (reply (getOrder no_failure (Some 2) 1 example_db)) = 200"
    by (simp add: getOrder_def example_db_def owned_orders_def not_logged_in_def no_failure_def)
  moreover have "map o_ono (orders example_db) = [1]" "map o_userid (orders example_db) = [2]"
    by (simp_all add: example_db_def)
  ultimately show ?thesis
    using getOrder_foreign_order [OF h, of no_failure] by (auto simp: no_failure_def)
qed

section \<open>Rounding to a double\<close>

text \<open>
  \<open>ilog\<close> meets its specification; \<open>fl\<close> is exact on the whole numbers up to \<open>2 ^ 53\<close>,
  keeps a number from 1 up at 1 or above, and does not move a quotient of two whole
  numbers below \<open>2 ^ 53\<close> across a whole number.
\<close>

lemma powi_frac:
  fixes B :: rat
  assumes "B \<noteq> 0"
  shows "B ^ m / B ^ n = B powi (int m - int n)"
  using assms by (simp add: power_int_diff)

lemma powi_less_cancel:
  fixes B :: rat
  assumes "1 < B" "B powi m < B powi n"
  shows "m < n"
proof (rule ccontr)
  assume "\<not> m < n"
  then have "B powi n \<le> B powi m"
    using assms(1) by (intro power_int_increasing) simp_all
  with assms(2) show False by simp
qed

lemma ilog_bounds:
  assumes "0 < a" "1 < b"
  shows "of_nat b powi ilog b a \<le> a \<and> a < of_nat b powi (ilog b a + 1)"
proof -
  obtain p q where pq: "quotient_of a = (p, q)" by (cases "quotient_of a")
  have q: "0 < q" using pq by (rule quotient_of_denom_pos)
  have a: "a = of_int p / of_int q" using pq by (rule quotient_of_div)
  have p: "0 < p" using assms(1) q by (simp add: a zero_less_divide_iff)
  define P Q where "P = nat p" and "Q = nat q"
  have PQ: "0 < P" "0 < Q" "a = of_nat P / of_nat Q"
    using p q by (simp_all add: P_def Q_def a)
  define dp dq where "dp = floorlog b P" and "dq = floorlog b Q"
  define B :: rat where "B = of_nat b"
  have B: "1 < B" "0 < B" "B \<noteq> 0" using assms(2) by (simp_all add: B_def)
  have bp: "b ^ (dp - 1) \<le> P" "P < b ^ dp"
    using floorlog_bounds [of P b] PQ(1) assms(2) by (simp_all add: dp_def)
  have bq: "b ^ (dq - 1) \<le> Q" "Q < b ^ dq"
    using floorlog_bounds [of Q b] PQ(2) assms(2) by (simp_all add: dq_def)
  have d1: "1 \<le> dp" "1 \<le> dq"
    using PQ(1,2) assms(2) by (simp_all add: dp_def dq_def floorlog_def)
  have Pb: "B ^ (dp - 1) \<le> of_nat P" "of_nat P < B ^ dp"
    using bp unfolding B_def by (metis of_nat_le_iff of_nat_power, metis of_nat_less_iff of_nat_power)
  have Qb: "B ^ (dq - 1) \<le> of_nat Q" "of_nat Q < B ^ dq"
    using bq unfolding B_def by (metis of_nat_le_iff of_nat_power, metis of_nat_less_iff of_nat_power)
  have Qpos: "(0::rat) < of_nat Q" using PQ(2) by simp
  have upper: "a < B powi (int dp - int dq + 1)"
  proof -
    have "a < B ^ dp / of_nat Q"
      unfolding PQ(3) using Pb(2) Qpos by (simp add: divide_strict_right_mono)
    also have "\<dots> \<le> B ^ dp / B ^ (dq - 1)"
      using Qb(1) B(2) Qpos by (intro divide_left_mono) (simp_all add: mult_pos_pos)
    also have "\<dots> = B powi (int dp - int (dq - 1))"
      using B(3) by (rule powi_frac)
    also have "int dp - int (dq - 1) = int dp - int dq + 1" using d1 by simp
    finally show ?thesis .
  qed
  have lower: "B powi (int dp - int dq - 1) < a"
  proof -
    have "B powi (int (dp - 1) - int dq) = B ^ (dp - 1) / B ^ dq"
      using B(3) by (simp add: powi_frac)
    also have "\<dots> < B ^ (dp - 1) / of_nat Q"
      using Qb(2) B(2) Qpos by (intro divide_strict_left_mono) simp_all
    also have "\<dots> \<le> a"
      unfolding PQ(3) using Pb(1) Qpos by (simp add: divide_right_mono)
    finally have "B powi (int (dp - 1) - int dq) < a" .
    moreover have "int (dp - 1) - int dq = int dp - int dq - 1" using d1 by simp
    ultimately show ?thesis by (simp add: algebra_simps)
  qed
  have il: "ilog b a = (if B powi (int dp - int dq) \<le> a then int dp - int dq else int dp - int dq - 1)"
    by (simp add: ilog_def pq Let_def dp_def dq_def P_def Q_def B_def)
  show ?thesis
  proof (cases "B powi (int dp - int dq) \<le> a")
    case True
    then show ?thesis using upper il by (simp add: B_def)
  next
    case False
    then have "ilog b a = int dp - int dq - 1" using il by simp
    then show ?thesis using lower False by (simp add: B_def)
  qed
qed

lemma powi_le_cancel:
  fixes B :: rat
  assumes "1 < B" "B powi m \<le> B powi n"
  shows "m \<le> n"
proof (rule ccontr)
  assume "\<not> m \<le> n"
  then have "B powi n < B powi m"
    using assms(1) by (intro power_int_strict_increasing) simp_all
  with assms(2) show False by simp
qed

lemma ilog2_bounds:
  assumes "0 < a"
  shows "2 powi ilog 2 a \<le> a" "a < 2 powi (ilog 2 a + 1)"
  using ilog_bounds [OF assms, of 2] by simp_all

lemma ilog2_nonneg:
  assumes "1 \<le> a"
  shows "0 \<le> ilog 2 a"
proof -
  have "(2::rat) powi 0 < 2 powi (ilog 2 a + 1)"
    using ilog2_bounds(2) [of a] assms by simp
  then have "0 < ilog 2 a + 1" by (intro powi_less_cancel [of 2]) simp_all
  then show ?thesis by simp
qed


lemma round_even_of_int: "round_even (of_int z) = z"
  by (simp add: round_even_def)

lemma round_even_ge_floor: "\<lfloor>x\<rfloor> \<le> round_even x"
  by (simp add: round_even_def Let_def)



lemma fl_exact:
  assumes "0 < a" and "a / 2 powi binexp a = of_int m"
    and "binexp a < 971 \<or> binexp a = 971 \<and> m < 2 ^ 53"
  shows "fl a = Fin a"
proof -
  have "of_int m * 2 powi binexp a = a"
    using assms(2) by (metis divide_eq_eq power_int_eq_0_iff zero_neq_numeral)
  moreover have "round_even (a / 2 powi binexp a) = m"
    by (simp add: assms(2) round_even_of_int)
  ultimately show ?thesis
    using assms(1,3) by (auto simp: fl_def Let_def)
qed

lemma fl_of_nat:
  assumes "n \<le> 2 ^ 53"
  shows "fl (of_nat n) = Fin (of_nat n)"
proof (cases "n = 0")
  case True
  then show ?thesis by (simp add: fl_def)
next
  case False
  define a :: rat where "a = of_nat n"
  have a: "1 \<le> a" "0 < a" "a \<le> 2 ^ 53"
    using False assms unfolding a_def
    by (simp_all add: Suc_leI) 
  define e0 where "e0 = ilog 2 a"
  have e0: "0 \<le> e0" unfolding e0_def using a(1) by (rule ilog2_nonneg)
  have "(2::rat) powi e0 \<le> 2 powi 53"
    using ilog2_bounds(1) [OF a(2)] a(3) by (simp add: e0_def)
  then have e53: "e0 \<le> 53" by (intro powi_le_cancel [of 2]) simp_all
  have be: "binexp a = e0 - 52" using e0 by (simp add: binexp_def e0_def)
  show ?thesis
  proof (cases "e0 \<le> 52")
    case True
    define j where "j = nat (52 - e0)"
    have "(2::rat) powi (e0 - 52) = 1 / 2 ^ j"
      using True by (simp add: power_int_def j_def field_simps)
    then have "a / 2 powi binexp a = a * 2 ^ j"
      by (simp add: be)
    then have "a / 2 powi binexp a = of_int (int n * 2 ^ j)"
      by (simp add: a_def)
    moreover have "binexp a < 971" using True be by simp
    ultimately show ?thesis using fl_exact [OF a(2)] unfolding a_def by blast
  next
    case False
    then have e: "e0 = 53" using e53 by simp
    have "(2::rat) ^ 53 \<le> a" using ilog2_bounds(1) [OF a(2)] by (simp add: e0_def [symmetric] e)
    then have a53: "a = 2 ^ 53" using a(3) by simp
    have "a / 2 powi binexp a = a / 2" by (simp add: be e)
    then have "a / 2 powi binexp a = of_int (2 ^ 52)" by (simp add: a53)
    moreover have "binexp a < 971" using be e by simp
    ultimately show ?thesis using fl_exact [OF a(2)] unfolding a_def by blast
  qed
qed

lemma fl_ge_one:
  assumes "1 \<le> r"
  shows "fl r = PosInf \<or> (\<exists>v. fl r = Fin v \<and> 1 \<le> v)"
proof -
  have r: "0 < r" "r \<noteq> 0" "\<bar>r\<bar> = r" "\<not> r < 0" using assms by simp_all
  define e0 where "e0 = ilog 2 r"
  have e0: "0 \<le> e0" unfolding e0_def using assms by (rule ilog2_nonneg)
  have be: "binexp r = e0 - 52" using e0 by (simp add: binexp_def e0_def)
  define m where "m = round_even (r / 2 powi (e0 - 52))"
  have "(2::rat) powi e0 / 2 powi (e0 - 52) = 2 powi 52"
    by (simp add: power_int_diff)
  moreover have "(2::rat) powi e0 / 2 powi (e0 - 52) \<le> r / 2 powi (e0 - 52)"
    using ilog2_bounds(1) [OF r(1)] by (simp add: e0_def divide_right_mono)
  ultimately have "(2::rat) ^ 52 \<le> r / 2 powi (e0 - 52)" by simp
  then have "2 ^ 52 \<le> \<lfloor>r / 2 powi (e0 - 52)\<rfloor>" by (simp add: le_floor_iff)
  then have m52: "2 ^ 52 \<le> m" unfolding m_def using round_even_ge_floor order_trans by blast
  have "(1::rat) \<le> 2 powi e0" using e0 by (simp add: power_int_def)
  also have "\<dots> = 2 ^ 52 * 2 powi (e0 - 52)" by (simp add: power_int_diff)
  also have "\<dots> \<le> of_int m * 2 powi (e0 - 52)"
  proof (rule mult_right_mono)
    show "(2::rat) ^ 52 \<le> of_int m" using m52 by (metis of_int_le_iff of_int_numeral of_int_power)
    show "(0::rat) \<le> 2 powi (e0 - 52)" by simp
  qed
  finally have "1 \<le> of_int m * (2::rat) powi (e0 - 52)" .
  then show ?thesis using r by (simp add: fl_def Let_def be m_def)
qed

lemma fl_ge_one_not_less: "1 \<le> r \<Longrightarrow> \<not> js_less (fl r) (Fin 1)"
  using fl_ge_one [of r] by auto




text \<open>
  The exponent of a number between two powers of two, the rounding of a number by its
  distance to a whole number, the rounding of a negated number and of a whole number, and
  the error of \<open>fl\<close>: half a unit in the last place.
\<close>

lemma ilog2_unique:
  assumes "0 < a" "2 powi k \<le> a" "a < 2 powi (k + 1)"
  shows "ilog 2 a = k"
proof -
  have "(2::rat) powi ilog 2 a < 2 powi (k + 1)"
    using ilog2_bounds(1) [OF assms(1)] assms(3) by simp
  then have "ilog 2 a < k + 1" by (intro powi_less_cancel [of 2]) simp_all
  moreover have "(2::rat) powi k < 2 powi (ilog 2 a + 1)"
    using ilog2_bounds(2) [OF assms(1)] assms(2) by simp
  then have "k < ilog 2 a + 1" by (intro powi_less_cancel [of 2]) simp_all
  ultimately show ?thesis by simp
qed

lemma round_even_near:
  assumes "of_int z - 1 / 2 < x" "x < of_int z + 1 / 2"
  shows "round_even x = z"
proof (cases "of_int z \<le> x")
  case True
  then have "\<lfloor>x\<rfloor> = z" using assms(2) by (intro floor_unique) simp_all
  then show ?thesis using assms(2) by (simp add: round_even_def Let_def)
next
  case False
  then have "\<lfloor>x\<rfloor> = z - 1" using assms(1) by (intro floor_unique) simp_all
  then show ?thesis using assms(1) False by (simp add: round_even_def Let_def)
qed

lemma round_even_tie:
  assumes "x = of_int z + 1 / 2"
  shows "round_even x = (if even z then z else z + 1)"
proof -
  have "\<lfloor>x\<rfloor> = z" unfolding assms by (intro floor_unique) simp_all
  then show ?thesis by (simp add: round_even_def Let_def assms)
qed

lemma round_even_error: "\<bar>of_int (round_even x) - x\<bar> \<le> 1 / 2"
proof -
  define f where "f = \<lfloor>x\<rfloor>"
  have f: "of_int f \<le> x" "x < of_int f + 1" unfolding f_def by linarith+
  have r: "round_even x = (if x - of_int f < 1 / 2 then f else if 1 / 2 < x - of_int f then f + 1
      else if even f then f else f + 1)"
    by (simp add: round_even_def Let_def f_def)
  show ?thesis
  proof (cases "x - of_int f < 1 / 2")
    case True
    then show ?thesis using f r by (simp add: abs_if)
  next
    case False
    then have "round_even x = f + 1 \<or> round_even x = f \<and> x - of_int f = 1 / 2"
      using r by auto
    then show ?thesis using f False by (auto simp: abs_if)
  qed
qed

lemma fl_normal:
  assumes "2 powi k \<le> a" "a < 2 powi (k + 1)" "- 1022 \<le> k" "k < 1023"
  shows "fl a = Fin (of_int (round_even (a / 2 powi (k - 52))) * 2 powi (k - 52))"
proof -
  have "(0::rat) < 2 powi k" by simp
  then have a: "0 < a" using assms(1) by (rule less_le_trans)
  have "ilog 2 a = k" using a assms(1,2) by (rule ilog2_unique)
  then have "binexp a = k - 52" using assms(3) by (simp add: binexp_def)
  then show ?thesis using a assms(4) by (simp add: fl_def Let_def)
qed

lemma fl_minus: "fl (- r) = js_neg (fl r)"
proof (cases "r = 0")
  case True
  then show ?thesis by (simp add: fl_def js_neg_def)
next
  case False
  define e where "e = binexp \<bar>r\<bar>"
  define m where "m = round_even (\<bar>r\<bar> / 2 powi e)"
  define big where "big \<longleftrightarrow> 971 < e \<or> e = 971 \<and> 2 ^ 53 \<le> m"
  have pos: "fl x = (if big then (if x < 0 then NegInf else PosInf)
      else Fin (if x < 0 then - (of_int m * 2 powi e) else of_int m * 2 powi e))"
    if "\<bar>x\<bar> = \<bar>r\<bar>" for x
  proof -
    have "x \<noteq> 0" using that False by auto
    then show ?thesis unfolding fl_def Let_def that big_def m_def e_def by (simp only: if_False)
  qed
  have "fl (- r) = (if big then (if - r < 0 then NegInf else PosInf)
      else Fin (if - r < 0 then - (of_int m * 2 powi e) else of_int m * 2 powi e))"
    by (rule pos) simp
  moreover have "fl r = (if big then (if r < 0 then NegInf else PosInf)
      else Fin (if r < 0 then - (of_int m * 2 powi e) else of_int m * 2 powi e))"
    by (rule pos) simp
  ultimately show ?thesis using False by (simp add: js_neg_def)
qed

lemma fl_of_int:
  assumes "\<bar>z\<bar> \<le> 2 ^ 53"
  shows "fl (of_int z) = Fin (of_int z)"
proof (cases "0 \<le> z")
  case True
  then have "nat z \<le> 2 ^ 53" using assms by (simp add: nat_le_iff)
  from fl_of_nat [OF this] True show ?thesis by simp
next
  case False
  then have "nat (- z) \<le> 2 ^ 53" using assms by (simp add: nat_le_iff)
  from fl_of_nat [OF this] False have "fl (of_int (- z)) = Fin (of_int (- z))" by simp
  then have "fl (- of_int z) = Fin (- of_int z)" by simp
  then have "js_neg (fl (of_int z)) = Fin (- of_int z)" by (simp only: fl_minus)
  then show ?thesis by (cases "fl (of_int z :: rat)") (simp_all add: js_neg_def)
qed

lemma fl_error:
  assumes "fl r = Fin v"
  shows "\<bar>v - r\<bar> \<le> max (\<bar>r\<bar> / 2 ^ 53) (2 powi (- 1075))"
proof (cases "r = 0")
  case True
  then show ?thesis using assms by (simp add: fl_def)
next
  case False
  define a where "a = \<bar>r\<bar>"
  define e where "e = binexp a"
  define m where "m = round_even (a / 2 powi e)"
  have a: "0 < a" using False by (simp add: a_def)
  have v: "v = (if r < 0 then - (of_int m * 2 powi e) else of_int m * 2 powi e)"
    using assms False by (simp add: fl_def Let_def a_def e_def m_def split: if_splits)
  have "\<bar>v - r\<bar> = \<bar>of_int m * 2 powi e - a\<bar>"
    using v by (simp add: a_def abs_if)
  also have "\<dots> = \<bar>of_int m - a / 2 powi e\<bar> * 2 powi e"
  proof -
    have "of_int m * 2 powi e - a = (of_int m - a / 2 powi e) * 2 powi e"
      by (simp add: field_simps)
    then show ?thesis by (simp add: abs_mult)
  qed
  also have "\<dots> \<le> 1 / 2 * 2 powi e"
    unfolding m_def by (intro mult_right_mono round_even_error) simp
  also have "\<dots> = 2 powi (e - 1)" by (simp add: power_int_diff)
  finally have err: "\<bar>v - r\<bar> \<le> 2 powi (e - 1)" .
  show ?thesis
  proof (cases "- 1074 \<le> ilog 2 a - 52")
    case True
    then have "e = ilog 2 a - 52" by (simp add: e_def binexp_def)
    then have "(2::rat) powi (e - 1) = 2 powi ilog 2 a / 2 ^ 53"
      by (simp add: power_int_diff)
    also have "\<dots> \<le> a / 2 ^ 53"
      using ilog2_bounds(1) [OF a] by (simp add: divide_right_mono)
    finally show ?thesis using err by (simp add: a_def)
  next
    case False
    then have "e = - 1074" by (simp add: e_def binexp_def)
    then have "\<bar>v - r\<bar> \<le> 2 powi (- 1075)" using err by simp
    then show ?thesis by (simp add: le_max_iff_disj)
  qed
qed

section \<open>The amounts of the order lines\<close>

text \<open>
  With JavaScript's multiplication the amount of a line is the product of the quantity and
  of the number the price converts to, rounded to a double.
\<close>

lemma js_times_rounded:
  assumes "\<bar>q\<bar> \<le> 2 ^ 53" "to_number price = Fin p"
  shows "js_times q price = JNum (fl (of_int q * p))"
  using assms by (simp add: js_times_def fl_of_int)

lemma js_times_items:
  assumes "map (\<lambda>item. to_number (i_price item)) items = map Fin ps"
    and "\<forall>item\<in>set items. \<bar>i_qty item\<bar> \<le> 2 ^ 53"
  shows "map (\<lambda>item. js_times (i_qty item) (i_price item)) items =
           map (\<lambda>(q, p). JNum (fl (of_int q * p))) (zip (map i_qty items) ps)"
  using assms
proof (induction items arbitrary: ps)
  case Nil
  then show ?case by simp
next
  case (Cons item items)
  from Cons.prems(1) obtain p ps' where ps: "ps = p # ps'" "to_number (i_price item) = Fin p"
    "map (\<lambda>item. to_number (i_price item)) items = map Fin ps'"
    by (cases ps) auto
  from Cons.prems(2) have q: "\<bar>i_qty item\<bar> \<le> 2 ^ 53" "\<forall>item\<in>set items. \<bar>i_qty item\<bar> \<le> 2 ^ 53"
    by simp_all
  show ?case
    by (simp add: ps(1) js_times_rounded [OF q(1) ps(2)] Cons.IH [OF ps(3) q(2)])
qed

lemma exact_products:
  assumes "\<forall>(q, p)\<in>set zs. fl (of_int q * p) = Fin (of_int q * p)"
  shows "map (\<lambda>(q, p). JNum (fl (of_int q * p))) zs =
           map (\<lambda>x. JNum (Fin x)) (map (\<lambda>(q, p). of_int q * p) zs)"
  using assms by (induction zs) auto

lemma tenth: "fl (1 / 10) = Fin (3602879701896397 / 2 ^ 55)"
proof -
  have "round_even ((1 / 10) / 2 powi (- 4 - 52)) = 7205759403792794"
    by (rule round_even_near) (simp_all add: power_int_minus)
  then show ?thesis
    using fl_normal [of "- 4" "1 / 10"] by (simp add: power_int_minus)
qed

lemma three_tenths:
  "fl (3 * (3602879701896397 / 2 ^ 55)) = Fin (1351079888211149 / 2 ^ 52)"
proof -
  have "round_even ((3 * (3602879701896397 / 2 ^ 55)) / 2 powi (- 2 - 52)) =
      (if even (5404319552844595::int) then 5404319552844595 else 5404319552844595 + 1)"
    by (rule round_even_tie) (simp add: power_int_minus)
  then have "round_even ((3 * (3602879701896397 / 2 ^ 55)) / 2 powi (- 2 - 52)) = 5404319552844596"
    by simp
  then show ?thesis
    using fl_normal [of "- 2" "3 * (3602879701896397 / 2 ^ 55)"] by (simp add: power_int_minus)
qed

lemma dime_literal: "decimal_literal ''0.10'' = Some (1 / 10)"
  by (simp add: decimal_literal_def is_digit_def digit_val_def digits_value_def exponent_part_def)

lemma dime_number: "to_number (JStr ''0.10'') = Fin (3602879701896397 / 2 ^ 55)"
proof -
  have "string_to_number ''0.10'' = fl (1 / 10)"
    by (simp add: string_to_number_def trim_def js_space_def dime_literal)
  then show ?thesis by (simp only: to_number_def jsval.case tenth)
qed

lemma dime_times: "js_times 3 (JStr ''0.10'') = JNum (Fin (1351079888211149 / 2 ^ 52))"
proof -
  have "js_times 3 (JStr ''0.10'') = JNum (fl (of_int 3 * (3602879701896397 / 2 ^ 55)))"
    by (rule js_times_rounded [OF _ dime_number]) simp
  then show ?thesis using three_tenths by simp
qed

text \<open>
  Claim C2 as stated fails: for three copies at the price \<^verbatim>\<open>"0.10"\<close> the handler
  computes and passes to the store the amount \<open>1351079888211149 / 2 ^ 52\<close>, the double
  that prints as \<^verbatim>\<open>0.30000000000000004\<close>. It is neither three times the decimal
  price, 3/10, nor three times the double that the price converts to.
\<close>

theorem checkout_amount_rounded:
  "reply (checkout no_failure js_times ''2024-05-01'' (Some 1) dime_shop) = (200, SuccessOrder 1) \<and>
   map i_qty (cart_items dime_shop 1) = [3] \<and>
   map i_price (cart_items dime_shop 1) = [JStr ''0.10''] \<and>
   decimal_literal ''0.10'' = Some (1 / 10) \<and>
   to_number (JStr ''0.10'') = Fin (3602879701896397 / 2 ^ 55) \<and>
   map d_amount (odetails (store (checkout no_failure js_times ''2024-05-01'' (Some 1) dime_shop))) =
     [JNum (Fin (1351079888211149 / 2 ^ 52))] \<and>
   (1351079888211149 / 2 ^ 52 :: rat) \<noteq> 3 * (1 / 10) \<and>
   (1351079888211149 / 2 ^ 52 :: rat) \<noteq> 3 * (3602879701896397 / 2 ^ 55)"
proof -
  have "reply (checkout no_failure js_times ''2024-05-01'' (Some 1) dime_shop) = (200, SuccessOrder 1)"
    by (simp add: checkout_def dime_shop_def cart_items_def no_failure_def not_logged_in_def
        order_row_def detail_row_def checkout_failed_def)
  moreover have "map i_qty (cart_items dime_shop 1) = [3]"
    "map i_price (cart_items dime_shop 1) = [JStr ''0.10'']"
    by (simp_all add: dime_shop_def cart_items_def)
  moreover have "map d_amount (odetails (store (checkout no_failure js_times ''2024-05-01'' (Some 1) dime_shop))) =
     [js_times 3 (JStr ''0.10'')]"
    by (simp add: checkout_def dime_shop_def cart_items_def no_failure_def not_logged_in_def
        order_row_def detail_row_def checkout_failed_def)
  moreover have "(1351079888211149 / 2 ^ 52 :: rat) \<noteq> 3 * (1 / 10)"
    "(1351079888211149 / 2 ^ 52 :: rat) \<noteq> 3 * (3602879701896397 / 2 ^ 55)"
    by simp_all
  ultimately show ?thesis by (simp only: dime_literal dime_number dime_times simp_thms)
qed

text \<open>
  Claim C2, as the code has it. When checkout succeeds on a store whose order lines do not
  use the new order number yet, with the prices of the cart snapshot converting to the
  finite numbers \<open>ps\<close> and the quantities within \<open>2 ^ 53\<close>: the lines of the created order
  are one line for each item of the snapshot; the amount of a line is \<open>qty * price\<close>
  rounded to a double, which differs from the product by at most its \<open>2 ^ 53\<close>th part
  (\<open>2 powi - 1075\<close> for the smallest numbers); when every product of the snapshot is a
  double, every amount is the product itself and the amounts sum up to the sum of the
  products; and a second successful checkout of an equal snapshot writes the same amounts.
\<close>

theorem checkout_rounded_amounts:
  assumes "reply (checkout fails js_times today (Some u) d) = (200, SuccessOrder orderId)"
    and "\<forall>l\<in>set (odetails d). d_ono l \<noteq> next_ono d"
    and "map (\<lambda>item. to_number (i_price item)) (cart_items d u) = map Fin ps"
    and "\<forall>item\<in>set (cart_items d u). \<bar>i_qty item\<bar> \<le> 2 ^ 53"
  shows "filter (\<lambda>l. d_ono l = orderId) (odetails (store (checkout fails js_times today (Some u) d))) =
       map (detail_row js_times orderId) (cart_items d u) \<and>
     map d_amount (filter (\<lambda>l. d_ono l = orderId)
         (odetails (store (checkout fails js_times today (Some u) d)))) =
       map (\<lambda>(q, p). JNum (fl (of_int q * p))) (zip (map i_qty (cart_items d u)) ps) \<and>
     (\<forall>(q, p)\<in>set (zip (map i_qty (cart_items d u)) ps). \<forall>v. fl (of_int q * p) = Fin v \<longrightarrow>
        \<bar>v - of_int q * p\<bar> \<le> max (\<bar>of_int q * p\<bar> / 2 ^ 53) (2 powi (- 1075))) \<and>
     ((\<forall>(q, p)\<in>set (zip (map i_qty (cart_items d u)) ps). fl (of_int q * p) = Fin (of_int q * p)) \<longrightarrow>
        map d_amount (filter (\<lambda>l. d_ono l = orderId)
            (odetails (store (checkout fails js_times today (Some u) d)))) =
          map (\<lambda>(q, p). JNum (Fin (of_int q * p))) (zip (map i_qty (cart_items d u)) ps) \<and>
        (\<exists>vs. map d_amount (filter (\<lambda>l. d_ono l = orderId)
                (odetails (store (checkout fails js_times today (Some u) d)))) =
              map (\<lambda>x. JNum (Fin x)) vs \<and>
            sum_list vs = (\<Sum>(q, p)\<leftarrow>zip (map i_qty (cart_items d u)) ps. of_int q * p))) \<and>
     (reply (checkout fails2 js_times today2 (Some u2) d2) = (200, SuccessOrder orderId2) \<and>
      (\<forall>l\<in>set (odetails d2). d_ono l \<noteq> next_ono d2) \<and> cart_items d2 u2 = cart_items d u \<longrightarrow>
        map d_amount (filter (\<lambda>l. d_ono l = orderId2)
            (odetails (store (checkout fails2 js_times today2 (Some u2) d2)))) =
        map d_amount (filter (\<lambda>l. d_ono l = orderId)
            (odetails (store (checkout fails js_times today (Some u) d)))))"
proof -
  define lines where
    "lines = filter (\<lambda>l. d_ono l = orderId) (odetails (store (checkout fails js_times today (Some u) d)))"
  define zs where "zs = zip (map i_qty (cart_items d u)) ps"
  have rows: "lines = map (detail_row js_times orderId) (cart_items d u)"
    unfolding lines_def by (rule checkout_new_lines(2) [OF assms(1,2)])
  have written: "map d_amount lines =
      map (\<lambda>item. js_times (i_qty item) (i_price item)) (cart_items d u)"
    unfolding lines_def by (rule checkout_new_amounts [OF assms(1,2)])
  have rounded: "map d_amount lines = map (\<lambda>(q, p). JNum (fl (of_int q * p))) zs"
    unfolding zs_def written by (rule js_times_items [OF assms(3,4)])
  have error: "\<forall>(q, p)\<in>set zs. \<forall>v. fl (of_int q * p) = Fin v \<longrightarrow>
      \<bar>v - of_int q * p\<bar> \<le> max (\<bar>of_int q * p\<bar> / 2 ^ 53) (2 powi (- 1075))"
    using fl_error by blast
  have exact: "map d_amount lines = map (\<lambda>(q, p). JNum (Fin (of_int q * p))) zs \<and>
      (\<exists>vs. map d_amount lines = map (\<lambda>x. JNum (Fin x)) vs \<and>
         sum_list vs = (\<Sum>(q, p)\<leftarrow>zs. of_int q * p))"
    if ex: "\<forall>(q, p)\<in>set zs. fl (of_int q * p) = Fin (of_int q * p)"
  proof
    have e: "map d_amount lines = map (\<lambda>x. JNum (Fin x)) (map (\<lambda>(q, p). of_int q * p) zs)"
      unfolding rounded using ex by (rule exact_products)
    then show "map d_amount lines = map (\<lambda>(q, p). JNum (Fin (of_int q * p))) zs"
      by (simp add: case_prod_unfold comp_def)
    from e show "\<exists>vs. map d_amount lines = map (\<lambda>x. JNum (Fin x)) vs \<and>
         sum_list vs = (\<Sum>(q, p)\<leftarrow>zs. of_int q * p)"
      by blast
  qed
  have again: "map d_amount (filter (\<lambda>l. d_ono l = orderId2)
            (odetails (store (checkout fails2 js_times today2 (Some u2) d2)))) = map d_amount lines"
    if run2: "reply (checkout fails2 js_times today2 (Some u2) d2) = (200, SuccessOrder orderId2) \<and>
      (\<forall>l\<in>set (odetails d2). d_ono l \<noteq> next_ono d2) \<and> cart_items d2 u2 = cart_items d u"
  proof -
    have "map d_amount (filter (\<lambda>l. d_ono l = orderId2)
            (odetails (store (checkout fails2 js_times today2 (Some u2) d2)))) =
         map (\<lambda>item. js_times (i_qty item) (i_price item)) (cart_items d u)"
      using run2 checkout_new_amounts [of fails2 js_times today2 u2 d2 orderId2] by simp
    then show ?thesis by (simp only: written)
  qed
  from rows rounded error exact again show ?thesis
    unfolding lines_def zs_def by blast
qed

lemma decimal_prices:
  "to_number (JStr ''10.00'') = Fin 10" "to_number (JStr ''5.50'') = Fin (11 / 2)"
  "fl (of_int 5 * 10) = Fin (of_int 5 * 10)" "fl (of_int 1 * (11 / 2)) = Fin (of_int 1 * (11 / 2))"
  by code_simp+

theorem checkout_rounded_amounts_witness:
  "reply (checkout no_failure js_times ''2024-05-01'' (Some 1) example_shop) = (200, SuccessOrder 1) \<and>
   odetails example_shop = [] \<and>
   map i_qty (cart_items example_shop 1) = [5, 1] \<and>
   map i_price (cart_items example_shop 1) = [JStr ''10.00'', JStr ''5.50''] \<and>
   map (\<lambda>item. to_number (i_price item)) (cart_items example_shop 1) = map Fin [10, 11 / 2] \<and>
   map d_amount (filter (\<lambda>l. d_ono l = 1)
       (odetails (store (checkout no_failure js_times ''2024-05-01'' (Some 1) example_shop)))) =
     [JNum (Fin 50), JNum (Fin (11 / 2))]"
proof -
  have ok: "reply (checkout no_failure js_times ''2024-05-01'' (Some 1) example_shop) =
      (200, SuccessOrder 1)"
    by (simp add: checkout_def example_shop_def cart_items_def no_failure_def not_logged_in_def
        order_row_def detail_row_def checkout_failed_def)
  have fresh: "\<forall>l\<in>set (odetails example_shop). d_ono l \<noteq> next_ono example_shop"
    by (simp add: example_shop_def)
  have items: "map i_qty (cart_items example_shop 1) = [5, 1]"
    "map i_price (cart_items example_shop 1) = [JStr ''10.00'', JStr ''5.50'']"
    by (simp_all add: example_shop_def cart_items_def)
  have prices: "map (\<lambda>item. to_number (i_price item)) (cart_items example_shop 1) =
      map Fin [10, 11 / 2]"
    by (simp add: example_shop_def cart_items_def decimal_prices)
  have qtys: "\<forall>item\<in>set (cart_items example_shop 1). \<bar>i_qty item\<bar> \<le> 2 ^ 53"
    by (simp add: example_shop_def cart_items_def)
  have exact: "\<forall>(q, p)\<in>set (zip (map i_qty (cart_items example_shop 1)) [10, 11 / 2]).
      fl (of_int q * p) = Fin (of_int q * p)"
    unfolding items using decimal_prices(3,4) by simp
  have "map d_amount (filter (\<lambda>l. d_ono l = 1)
       (odetails (store (checkout no_failure js_times ''2024-05-01'' (Some 1) example_shop)))) =
     map (\<lambda>(q, p). JNum (Fin (of_int q * p))) (zip (map i_qty (cart_items example_shop 1)) [10, 11 / 2])"
    using checkout_rounded_amounts [OF ok fresh prices qtys] exact by blast
  then have "map d_amount (filter (\<lambda>l. d_ono l = 1)
       (odetails (store (checkout no_failure js_times ''2024-05-01'' (Some 1) example_shop)))) =
     [JNum (Fin 50), JNum (Fin (11 / 2))]"
    unfolding items by simp
  with ok items prices show ?thesis by (simp add: example_shop_def)
qed

section \<open>The cart: merging and the quantity floor\<close>


lemma sql_int_of_int: "sql_int (Fin (of_int q)) = Some q"
  by (simp add: sql_int_def)

lemma addItem_accepted:
  assumes ok: "fst (reply (addItem fails (Some u) b qty d)) = 200"
    and n: "sql_int (parseInt qty) = Some n"
  shows "store (addItem fails (Some u) b qty d) =
      (if lines_of d u b \<noteq> []
       then d\<lparr>cart := map (\<lambda>c. if c_userid c = u \<and> c_isbn c = b
                                then c\<lparr>c_qty := c_qty c + n\<rparr> else c) (cart d)\<rparr>
       else d\<lparr>cart := cart d @ [\<lparr>c_userid = u, c_isbn = b, c_qty = n\<rparr>]\<rparr>)"
  using ok n
  by (simp add: addItem_def lines_of_def cart_failed_def Let_def split: if_splits)

lemma lines_of_insert:
  "lines_of d u b = [] \<Longrightarrow>
   lines_of (d\<lparr>cart := cart d @ [\<lparr>c_userid = u, c_isbn = b, c_qty = n\<rparr>]\<rparr>) u b =
     [\<lparr>c_userid = u, c_isbn = b, c_qty = n\<rparr>]"
  by (simp add: lines_of_def)

lemma filter_map_bump:
  "filter (\<lambda>c. c_userid c = u \<and> c_isbn c = b)
     (map (\<lambda>c. if c_userid c = u \<and> c_isbn c = b then c\<lparr>c_qty := c_qty c + n\<rparr> else c) xs) =
   map (\<lambda>c. c\<lparr>c_qty := c_qty c + n\<rparr>) (filter (\<lambda>c. c_userid c = u \<and> c_isbn c = b) xs)"
  by (induction xs) auto

lemma lines_of_update:
  "lines_of (d\<lparr>cart := map (\<lambda>c. if c_userid c = u \<and> c_isbn c = b
                                then c\<lparr>c_qty := c_qty c + n\<rparr> else c) (cart d)\<rparr>) u b =
     map (\<lambda>c. c\<lparr>c_qty := c_qty c + n\<rparr>) (lines_of d u b)"
  by (simp add: lines_of_def filter_map_bump)

lemma addItem_lines:
  assumes "fst (reply (addItem fails (Some u) b qty d)) = 200"
    and "sql_int (parseInt qty) = Some n"
  shows "lines_of (store (addItem fails (Some u) b qty d)) u b =
      (if lines_of d u b = [] then [\<lparr>c_userid = u, c_isbn = b, c_qty = n\<rparr>]
       else map (\<lambda>c. c\<lparr>c_qty := c_qty c + n\<rparr>) (lines_of d u b))"
  by (simp add: addItem_accepted [OF assms] lines_of_insert lines_of_update)





text \<open>
  Claim C6. When \<^verbatim>\<open>qty\<close> is a number below 1 (0 and -1 among them), or any value for
  which \<^verbatim>\<open>!qty || qty < 1\<close> holds, the request of a logged-in user is answered
  400 \<^verbatim>\<open>Quantity must be at least 1\<close>, the store is as it was, and no store call has been
  issued (a request without a session is answered 401, equally without a store call).
\<close>

theorem addItem_quantity_floor:
  assumes "qty = JNum (Fin r) \<and> r < 1 \<or> js_not qty \<or> js_less (to_number qty) (Fin 1)"
  shows "calls (addItem fails sess isbn qty d) = 0 \<and>
     store (addItem fails sess isbn qty d) = d \<and>
     reply (addItem fails sess isbn qty d) =
       (if not_logged_in sess then (401, Error ''Not logged in'')
        else (400, Error ''Quantity must be at least 1''))"
proof -
  from assms have "js_not qty \<or> js_less (to_number qty) (Fin 1)"
    by (auto simp: to_number_def)
  then show ?thesis by (simp add: addItem_def)
qed

theorem addItem_quantity_floor_witness:
  "reply (addItem (failure_at 0) (Some 1) ''B1'' (JNum (Fin 0)) example_db) =
     (400, Error ''Quantity must be at least 1'') \<and>
   reply (addItem (failure_at 0) (Some 1) ''B1'' (JNum (Fin (- 1))) example_db) =
     (400, Error ''Quantity must be at least 1'') \<and>
   store (addItem (failure_at 0) (Some 1) ''B1'' (JNum (Fin (- 1))) example_db) = example_db \<and>
   calls (addItem (failure_at 0) (Some 1) ''B1'' (JNum (Fin (- 1))) example_db) = 0"
proof -
  have "JNum (Fin 0) = JNum (Fin 0) \<and> (0::rat) < 1 \<or> js_not (JNum (Fin 0)) \<or>
      js_less (to_number (JNum (Fin 0))) (Fin 1)"
    "JNum (Fin (- 1)) = JNum (Fin (- 1)) \<and> (- 1::rat) < 1 \<or> js_not (JNum (Fin (- 1))) \<or>
      js_less (to_number (JNum (Fin (- 1)))) (Fin 1)"
    by simp_all
  from addItem_quantity_floor [OF this(1), of "failure_at 0" "Some 1" "''B1''" example_db]
    addItem_quantity_floor [OF this(2), of "failure_at 0" "Some 1" "''B1''" example_db]
  show ?thesis by (simp add: not_logged_in_def)
qed

section \<open>Quantities that are not whole numbers\<close>

lemma is_digit10: "is_digit 10 c \<longleftrightarrow> 48 \<le> (of_char c :: nat) \<and> (of_char c :: nat) \<le> 57"
  by (auto simp: is_digit_def digit_val_def Let_def)

lemma digit_plain:
  assumes "is_digit 10 c"
  shows "\<not> js_space c" "c \<noteq> CHR ''-''" "c \<noteq> CHR ''+''" "c \<noteq> CHR ''x''" "c \<noteq> CHR ''X''"
    "c \<noteq> CHR ''o''" "c \<noteq> CHR ''O''" "c \<noteq> CHR ''b''" "c \<noteq> CHR ''B''" "c \<noteq> CHR ''.''"
    "c \<noteq> CHR ''I''"
  using assms by (auto simp: is_digit10 js_space_def)

lemma dot_plain: "\<not> is_digit 10 CHR ''.''" "\<not> js_space CHR ''.''"
  by (simp_all add: is_digit10 js_space_def)

lemma span_digits:
  assumes "list_all (is_digit 10) ds" and "fs = [] \<or> \<not> is_digit 10 (hd fs)"
  shows "takeWhile (is_digit 10) (ds @ fs) = ds" "dropWhile (is_digit 10) (ds @ fs) = fs"
proof -
  have a: "\<And>x. x \<in> set ds \<Longrightarrow> is_digit 10 x" using assms(1) by (simp add: list_all_iff)
  have "takeWhile (is_digit 10) fs = []" "dropWhile (is_digit 10) fs = fs"
    using assms(2) by (cases fs; simp)+
  then show "takeWhile (is_digit 10) (ds @ fs) = ds" "dropWhile (is_digit 10) (ds @ fs) = fs"
    using a by (simp_all add: takeWhile_append2 dropWhile_append2)
qed

lemma span_all_digits:
  assumes "list_all (is_digit 10) gs"
  shows "takeWhile (is_digit 10) gs = gs" "dropWhile (is_digit 10) gs = []"
  using span_digits [OF assms, of "[]"] by simp_all

lemma trim_plain:
  assumes "s \<noteq> []" "\<not> js_space (hd s)" "\<not> js_space (last s)"
  shows "trim s = s"
proof -
  have "dropWhile js_space s = s" using assms(1,2) by (cases s) simp_all
  moreover have "dropWhile js_space (rev s) = rev s"
    using assms(1,3) by (cases "rev s") (simp_all add: hd_rev [symmetric])
  ultimately show ?thesis by (simp add: trim_def)
qed


lemma plain_decimal_parts:
  assumes "plain_decimal ds fs"
  shows "ds \<noteq> []" "list_all (is_digit 10) ds" "is_digit 10 (hd ds)"
    "fs = [] \<or> \<not> is_digit 10 (hd fs)"
    "hd (ds @ fs) = hd ds" "\<not> js_space (last (ds @ fs))"
proof -
  show ds: "ds \<noteq> []" "list_all (is_digit 10) ds"
    using assms by (simp_all add: plain_decimal_def all_digits_def)
  then show "is_digit 10 (hd ds)" by (cases ds) simp_all
  show "fs = [] \<or> \<not> is_digit 10 (hd fs)"
    using assms by (auto simp: plain_decimal_def dot_plain)
  show "hd (ds @ fs) = hd ds" using ds(1) by simp
  show "\<not> js_space (last (ds @ fs))"
  proof (cases "fs = []")
    case True
    have "last ds \<in> set ds" using ds(1) by simp
    then have "is_digit 10 (last ds)" using ds(2) by (simp add: list_all_iff)
    then show ?thesis using True by (simp add: digit_plain)
  next
    case False
    then obtain gs where fs: "fs = CHR ''.'' # gs" "list_all (is_digit 10) gs"
      using assms by (cases fs) (auto simp: plain_decimal_def)
    show ?thesis
    proof (cases "gs = []")
      case True
      then show ?thesis using fs by (simp add: dot_plain)
    next
      case False
      then have "last gs \<in> set gs" by simp
      then have "is_digit 10 (last gs)" using fs(2) by (simp add: list_all_iff)
      then show ?thesis using fs False by (simp add: digit_plain)
    qed
  qed
qed

lemma plain_decimal_second:
  assumes "plain_decimal ds fs" "take 2 (ds @ fs) = [c1, c2]"
  shows "is_digit 10 c2 \<or> c2 = CHR ''.''"
proof -
  note p = plain_decimal_parts [OF assms(1)]
  obtain c cs where ds: "ds = c # cs" using p(1) by (cases ds) auto
  show ?thesis
  proof (cases cs)
    case Nil
    then have "fs \<noteq> []" "c2 = hd fs" using assms(2) ds by (cases fs; simp)+
    then show ?thesis using assms(1) by (simp add: plain_decimal_def)
  next
    case (Cons c' cs')
    then have "c2 = c'" using assms(2) ds by simp
    then show ?thesis using p(2) ds Cons by simp
  qed
qed

lemma plain_decimal_no_prefix:
  assumes "plain_decimal ds fs"
  shows "take 2 (ds @ fs) \<noteq> ''0x''" "take 2 (ds @ fs) \<noteq> ''0X''" "take 2 (ds @ fs) \<noteq> ''0o''"
    "take 2 (ds @ fs) \<noteq> ''0O''" "take 2 (ds @ fs) \<noteq> ''0b''" "take 2 (ds @ fs) \<noteq> ''0B''"
  using plain_decimal_second [OF assms] digit_plain by blast+

lemma parseInt_str_plain:
  assumes "plain_decimal ds fs"
  shows "parseInt_str (ds @ fs) = fl (of_nat (digits_value 10 ds))"
proof -
  note p = plain_decimal_parts [OF assms]
  have ne: "ds @ fs \<noteq> []" using p(1) by simp
  have hd: "is_digit 10 (hd (ds @ fs))" using p(3,5) by simp
  have s1: "dropWhile js_space (ds @ fs) = ds @ fs"
    using ne digit_plain(1) [OF hd] by (cases "ds @ fs") simp_all
  have sign: "hd (ds @ fs) \<noteq> CHR ''-''" "hd (ds @ fs) \<noteq> CHR ''+''"
    using digit_plain [OF hd] by simp_all
  show ?thesis
    unfolding parseInt_str_def Let_def s1
    using sign p(1) plain_decimal_no_prefix [OF assms] span_digits(1) [OF p(2,4)]
    by simp
qed

lemma decimal_literal_plain:
  assumes "plain_decimal ds fs"
  shows "\<exists>v. decimal_literal (ds @ fs) = Some v \<and> of_nat (digits_value 10 ds) \<le> v"
proof -
  note p = plain_decimal_parts [OF assms]
  note sp = span_digits [OF p(2,4)]
  show ?thesis
  proof (cases "fs = []")
    case True
    show ?thesis
      unfolding True append_Nil2 decimal_literal_def Let_def span_all_digits [OF p(2)]
      using p(1) by (simp add: exponent_part_def digits_value_def)
  next
    case False
    then obtain gs where fs: "fs = CHR ''.'' # gs" "list_all (is_digit 10) gs"
      using assms by (cases fs) (auto simp: plain_decimal_def)
    note sg = span_all_digits [OF fs(2)]
    have "decimal_literal (ds @ fs) =
        Some (of_nat (digits_value 10 ds) + of_nat (digits_value 10 gs) / 10 ^ length gs)"
      unfolding decimal_literal_def Let_def sp
      using p(1) by (simp add: fs(1) sg exponent_part_def)
    moreover have "(0::rat) \<le> of_nat (digits_value 10 gs) / 10 ^ length gs" by simp
    ultimately show ?thesis by simp
  qed
qed

lemma string_to_number_plain:
  assumes "plain_decimal ds fs"
  shows "\<exists>v. string_to_number (ds @ fs) = fl v \<and> of_nat (digits_value 10 ds) \<le> v"
proof -
  note p = plain_decimal_parts [OF assms]
  define s where "s = ds @ fs"
  have ne: "s \<noteq> []" using p(1) by (simp add: s_def)
  have hd: "is_digit 10 (hd s)" using p(3,5) by (simp add: s_def)
  have t: "trim s = s"
    using ne digit_plain(1) [OF hd] p(6) unfolding s_def by (rule trim_plain)
  have sign: "hd s \<noteq> CHR ''-''" "hd s \<noteq> CHR ''+''"
    using digit_plain [OF hd] by simp_all
  have inf: "s \<noteq> ''Infinity''"
    using digit_plain(11) [OF hd] by (metis list.sel(1))
  note pre = plain_decimal_no_prefix [OF assms, folded s_def]
  from decimal_literal_plain [OF assms] obtain v where
    v: "decimal_literal s = Some v" "of_nat (digits_value 10 ds) \<le> v"
    unfolding s_def by blast
  have "string_to_number s = fl v"
    unfolding string_to_number_def Let_def t
    using ne sign inf pre v(1) by simp
  then show ?thesis using v(2) unfolding s_def by blast
qed


lemma addItem_success:
  assumes "u \<noteq> 0" "\<not> js_not qty" "\<not> js_less (to_number qty) (Fin 1)"
    "\<not> fails 0" "\<not> fails 1" "sql_int (parseInt qty) = Some n"
  shows "reply (addItem fails (Some u) b qty d) = (200, Success)"
  using assms by (simp add: addItem_def not_logged_in_def Let_def)

lemma accepted_number:
  assumes "1 \<le> r" "r < 10 ^ 21"
  shows "\<not> js_not (JNum (Fin r))" "\<not> js_less (to_number (JNum (Fin r))) (Fin 1)"
    "parseInt (JNum (Fin r)) = Fin (of_int \<lfloor>r\<rfloor>)" "1 \<le> \<lfloor>r\<rfloor>"
  using assms by (simp_all add: js_not_def falsy_num_def to_number_def parseInt_def
      parseInt_num_def Let_def le_floor_iff)

lemma accepted_string:
  assumes "plain_decimal ds fs" "1 \<le> digits_value 10 ds" "digits_value 10 ds < 2 ^ 53"
  shows "\<not> js_not (JStr (ds @ fs))" "\<not> js_less (to_number (JStr (ds @ fs))) (Fin 1)"
    "parseInt (JStr (ds @ fs)) = Fin (of_int (int (digits_value 10 ds)))"
proof -
  show "\<not> js_not (JStr (ds @ fs))"
    using plain_decimal_parts(1) [OF assms(1)] by (simp add: js_not_def)
  from string_to_number_plain [OF assms(1)] obtain v where
    v: "string_to_number (ds @ fs) = fl v" "of_nat (digits_value 10 ds) \<le> v" by blast
  have "(1::rat) \<le> of_nat (digits_value 10 ds)" using assms(2) by simp
  then have "1 \<le> v" using v(2) by simp
  then show "\<not> js_less (to_number (JStr (ds @ fs))) (Fin 1)"
    by (simp add: to_number_def v(1) fl_ge_one_not_less)
  have "fl (of_nat (digits_value 10 ds)) = Fin (of_nat (digits_value 10 ds))"
    using assms(3) by (intro fl_of_nat) simp
  then show "parseInt (JStr (ds @ fs)) = Fin (of_int (int (digits_value 10 ds)))"
    by (simp add: parseInt_def parseInt_str_plain [OF assms(1)])
qed

text \<open>
  Where the test and \<^verbatim>\<open>parseInt\<close> agree. For a logged-in user and store calls that do
  not fail: when \<^verbatim>\<open>qty\<close> is a number \<open>r\<close> with \<open>1 \<le> r < 10 ^ 21\<close>, whole or not
  (1.5), or a string that is a plain decimal numeral (\<^verbatim>\<open>"3"\<close>, \<^verbatim>\<open>"12.75"\<close>) whose
  digits before the point have a value from 1 up and below \<open>2 ^ 53\<close>, the request succeeds
  and the quantity stored, or added to the line that exists, is \<^verbatim>\<open>parseInt(qty)\<close>,
  the integer part \<open>n\<close> of the quantity, which is at least 1.
\<close>

lemma addItem_truncates:
  assumes "u \<noteq> 0" "\<not> fails 0" "\<not> fails 1"
    and "qty = JNum (Fin r) \<and> 1 \<le> r \<and> r < 10 ^ 21 \<and> n = \<lfloor>r\<rfloor> \<or>
         qty = JStr (ds @ fs) \<and> plain_decimal ds fs \<and> 1 \<le> digits_value 10 ds \<and>
           digits_value 10 ds < 2 ^ 53 \<and> n = int (digits_value 10 ds)"
  shows "reply (addItem fails (Some u) b qty d) = (200, Success) \<and>
     parseInt qty = Fin (of_int n) \<and> 1 \<le> n \<and>
     lines_of (store (addItem fails (Some u) b qty d)) u b =
       (if lines_of d u b = [] then [\<lparr>c_userid = u, c_isbn = b, c_qty = n\<rparr>]
        else map (\<lambda>c. c\<lparr>c_qty := c_qty c + n\<rparr>) (lines_of d u b))"
proof -
  have acc: "\<not> js_not qty" "\<not> js_less (to_number qty) (Fin 1)" "parseInt qty = Fin (of_int n)"
    "1 \<le> n"
    using assms(4) accepted_number [of r] accepted_string [of ds fs] by auto
  have n: "sql_int (parseInt qty) = Some n" by (simp add: acc(3) sql_int_of_int)
  have ok: "reply (addItem fails (Some u) b qty d) = (200, Success)"
    using assms(1) acc(1,2) assms(2,3) n by (rule addItem_success)
  then have "fst (reply (addItem fails (Some u) b qty d)) = 200" by simp
  from addItem_lines [OF this n] ok acc(3,4) show ?thesis by simp
qed

lemma addItem_truncates_example:
  "plain_decimal ''3'' [] \<and> digits_value 10 ''3'' = 3 \<and>
   reply (addItem no_failure (Some 2) ''B2'' (JNum (Fin (3 / 2))) example_db) = (200, Success) \<and>
   lines_of (store (addItem no_failure (Some 2) ''B2'' (JNum (Fin (3 / 2))) example_db)) 2 ''B2'' =
     [\<lparr>c_userid = 2, c_isbn = ''B2'', c_qty = 1\<rparr>] \<and>
   reply (addItem no_failure (Some 2) ''B2'' (JStr ''3'') example_db) = (200, Success) \<and>
   lines_of (store (addItem no_failure (Some 2) ''B2'' (JStr ''3'') example_db)) 2 ''B2'' =
     [\<lparr>c_userid = 2, c_isbn = ''B2'', c_qty = 3\<rparr>]"
proof -
  have q: "(2::nat) \<noteq> 0" "\<not> no_failure 0" "\<not> no_failure 1" by (simp_all add: no_failure_def)
  have pd: "plain_decimal ''3'' []" "digits_value 10 ''3'' = 3"
    by (simp_all add: plain_decimal_def all_digits_def is_digit_def digit_val_def digits_value_def)
  have none: "lines_of example_db 2 ''B2'' = []" by (simp add: lines_of_def example_db_def)
  have num: "JNum (Fin (3 / 2)) = JNum (Fin (3 / 2)) \<and> (1::rat) \<le> 3 / 2 \<and> (3 / 2 :: rat) < 10 ^ 21 \<and>
      (1::int) = \<lfloor>3 / 2 :: rat\<rfloor> \<or>
      JNum (Fin (3 / 2)) = JStr ([] @ []) \<and> plain_decimal [] [] \<and> 1 \<le> digits_value 10 [] \<and>
        digits_value 10 [] < 2 ^ 53 \<and> (1::int) = int (digits_value 10 [])"
  proof -
    have "\<lfloor>3 / 2 :: rat\<rfloor> = 1" by (rule floor_unique) simp_all
    then show ?thesis by simp
  qed
  have str: "JStr ''3'' = JNum (Fin 0) \<and> (1::rat) \<le> 0 \<and> (0::rat) < 10 ^ 21 \<and> (3::int) = \<lfloor>0::rat\<rfloor> \<or>
      JStr ''3'' = JStr (''3'' @ []) \<and> plain_decimal ''3'' [] \<and> 1 \<le> digits_value 10 ''3'' \<and>
        digits_value 10 ''3'' < 2 ^ 53 \<and> (3::int) = int (digits_value 10 ''3'')"
    using pd by simp
  from addItem_truncates [OF q num, of "''B2''" example_db]
    addItem_truncates [OF q str, of "''B2''" example_db] none pd
  show ?thesis by simp
qed

lemma exotic_quantity:
  "to_number (JStr ''0.5e1'') = Fin 5" "parseInt (JStr ''0.5e1'') = Fin 0"
  "to_number (JStr ''-0x10'') = NaN" "parseInt (JStr ''-0x10'') = Fin (- 16)"
  by code_simp+

text \<open>
  Claim C10 is not met by the handler. It tests \<^verbatim>\<open>qty\<close> as it came
  (\<^verbatim>\<open>!qty || qty < 1\<close>, answered with \<^verbatim>\<open>Quantity must be at least 1\<close>) and stores
  \<^verbatim>\<open>parseInt(qty)\<close>, which reads a string by other rules than the comparison does.
  The string \<^verbatim>\<open>"0.5e1"\<close> converts to the number 5, so the request passes the test, and
  \<^verbatim>\<open>parseInt\<close> reads it as 0: the request succeeds and a cart line with the quantity
  0 is stored, where the claim has a positive whole number.
\<close>

theorem addItem_stores_zero:
  "to_number (JStr ''0.5e1'') = Fin 5 \<and> parseInt (JStr ''0.5e1'') = Fin 0 \<and>
   lines_of example_db 2 ''B2'' = [] \<and>
   reply (addItem no_failure (Some 2) ''B2'' (JStr ''0.5e1'') example_db) = (200, Success) \<and>
   lines_of (store (addItem no_failure (Some 2) ''B2'' (JStr ''0.5e1'') example_db)) 2 ''B2'' =
     [\<lparr>c_userid = 2, c_isbn = ''B2'', c_qty = 0\<rparr>]"
  by (simp add: exotic_quantity addItem_def js_not_def sql_int_def not_logged_in_def no_failure_def
      lines_of_def example_db_def)

text \<open>
  The same defect with a signed hexadecimal numeral: \<^verbatim>\<open>"-0x10"\<close> converts to
  \<^verbatim>\<open>NaN\<close>, for which \<^verbatim>\<open>qty < 1\<close> is false, and \<^verbatim>\<open>parseInt\<close> reads it as
  \<open>- 16\<close>: a cart line with a negative quantity is stored.
\<close>

lemma addItem_stores_negative:
  "to_number (JStr ''-0x10'') = NaN \<and> parseInt (JStr ''-0x10'') = Fin (- 16) \<and>
   reply (addItem no_failure (Some 2) ''B2'' (JStr ''-0x10'') example_db) = (200, Success) \<and>
   lines_of (store (addItem no_failure (Some 2) ''B2'' (JStr ''-0x10'') example_db)) 2 ''B2'' =
     [\<lparr>c_userid = 2, c_isbn = ''B2'', c_qty = - 16\<rparr>]"
  by (simp add: exotic_quantity addItem_def js_not_def sql_int_def not_logged_in_def no_failure_def
      lines_of_def example_db_def)

section \<open>The window of a catalog search\<close>








section \<open>Registration with an email that exists\<close>

lemmas rx_eval = validateEmail_def validateZip_def plus_rx_def no_space_at_def decimal_digit_def
  js_space_def

lemma undefined_no_email: "\<not> validateEmail ''undefined''"
  by (simp add: rx_eval)

lemma register_cases:
  "store (register fails hash body d) = d \<and> fst (reply (register fails hash body d)) \<noteq> 200 \<or>
   (\<exists>e. reg_email body = Some e \<and> filter (\<lambda>m. m_email m = e) (members d) = [] \<and>
        fst (reply (register fails hash body d)) = 200)"
  using undefined_no_email
  by (auto simp: register_def register_failed_def Let_def split: option.splits)

text \<open>
  Claim C9, as the code has it. A registration whose email is the email of a member never
  inserts a member: the store is as it was and the reply is not a success. The reply is
  400 \<^verbatim>\<open>Email already exists\<close> when the three validations (email format, zip code,
  password length) pass and the lookup does not throw; the validations come first and
  answer with their own errors.
\<close>

theorem register_existing_email:
  assumes "reg_email body = Some e" and "\<exists>m\<in>set (members d). m_email m = e"
  shows "store (register fails hash body d) = d \<and>
     fst (reply (register fails hash body d)) \<noteq> 200 \<and>
     (validateEmail e \<and> (\<exists>z. reg_zip body = Some z \<and> validateZip z) \<and>
      (\<exists>pw. reg_password body = Some pw \<and> 6 \<le> length pw) \<and> \<not> fails 0 \<longrightarrow>
        reply (register fails hash body d) = (400, Error ''Email already exists'') \<and>
        calls (register fails hash body d) = 1)"
proof -
  from assms(2) have ex: "filter (\<lambda>m. m_email m = e) (members d) \<noteq> []"
    by (auto simp: filter_empty_conv)
  then have "store (register fails hash body d) = d \<and>
      fst (reply (register fails hash body d)) \<noteq> 200"
    using register_cases [of fails hash body d] assms(1) by auto
  moreover have "reply (register fails hash body d) = (400, Error ''Email already exists'') \<and>
        calls (register fails hash body d) = 1"
    if "validateEmail e" "\<exists>z. reg_zip body = Some z \<and> validateZip z"
      "\<exists>pw. reg_password body = Some pw \<and> 6 \<le> length pw" "\<not> fails 0"
    using that ex assms(1) by (auto simp: register_def Let_def)
  ultimately show ?thesis by blast
qed

theorem register_existing_email_witness:
  "reg_email example_registration = Some ''ada@example.org'' \<and>
   map m_email (members example_db) = [''ada@example.org'', ''bo@example.org''] \<and>
   validateEmail ''ada@example.org'' \<and> validateZip ''22100'' \<and>
   store (register no_failure id example_registration example_db) = example_db \<and>
   reply (register no_failure id example_registration example_db) =
     (400, Error ''Email already exists'')"
proof -
  have h: "reg_email example_registration = Some ''ada@example.org''"
    "\<exists>m\<in>set (members example_db). m_email m = ''ada@example.org''"
    by (simp_all add: example_registration_def example_db_def)
  have v: "validateEmail ''ada@example.org''" "validateZip ''22100''"
    by (simp_all add: rx_eval)
  have b: "\<exists>z. reg_zip example_registration = Some z \<and> validateZip z"
    "\<exists>pw. reg_password example_registration = Some pw \<and> 6 \<le> length pw" "\<not> no_failure 0"
    using v by (simp_all add: example_registration_def no_failure_def)
  have "map m_email (members example_db) = [''ada@example.org'', ''bo@example.org'']"
    by (simp add: example_db_def)
  then show ?thesis
    using register_existing_email [OF h, of no_failure id] h(1) v b by simp
qed

text \<open>
  Claim C9 as stated fails: a registration with the email of a member and a password of
  three characters is answered \<^verbatim>\<open>Password must be at least 6 characters\<close>.
\<close>

theorem register_other_error_first:
  "map m_email (members example_db) = [''ada@example.org'', ''bo@example.org''] \<and>
   reg_email (example_registration\<lparr>reg_password := Some ''abc''\<rparr>) = Some ''ada@example.org'' \<and>
   reply (register no_failure id (example_registration\<lparr>reg_password := Some ''abc''\<rparr>) example_db) =
     (400, Error ''Password must be at least 6 characters'')"
  by (simp add: register_def example_registration_def example_db_def rx_eval)

end
